theory Spec2Isabelle
  imports Main
begin

section \<open>JavaScript values and containers\<close>

text \<open>
  A configuration value that the gateway tests with \<^verbatim>\<open>if (x)\<close> or \<^verbatim>\<open>x && y\<close> is a string or
  \<^verbatim>\<open>undefined\<close>: \<open>None\<close> is \<^verbatim>\<open>undefined\<close>, and the empty string is falsy as well.
\<close>

definition truthy :: "string option \<Rightarrow> bool" where
  "truthy v = (case v of None \<Rightarrow> False | Some s \<Rightarrow> s \<noteq> [])"

text \<open>
  A JavaScript \<^verbatim>\<open>Map\<close> iterates in insertion order of its keys: it is an association list
  with one pair per key. \<^verbatim>\<open>set\<close> on a key that is present replaces the value in place; on a
  new key it appends. \<^verbatim>\<open>values().next().value\<close> is the value of the oldest key.
\<close>

type_synonym ('k, 'v) js_map = "('k \<times> 'v) list"

fun Map_set :: "('k, 'v) js_map \<Rightarrow> 'k \<Rightarrow> 'v \<Rightarrow> ('k, 'v) js_map" where
  "Map_set [] k v = [(k, v)]"
| "Map_set ((k', v') # m) k v =
     (if k' = k then (k, v) # m else (k', v') # Map_set m k v)"

definition Map_get :: "('k, 'v) js_map \<Rightarrow> 'k \<Rightarrow> 'v option" where
  "Map_get m k = map_of m k"

definition Map_size :: "('k, 'v) js_map \<Rightarrow> nat" where
  "Map_size m = length m"

definition Map_first_value :: "('k, 'v) js_map \<Rightarrow> 'v option" where
  "Map_first_value m = (case m of [] \<Rightarrow> None | (k, v) # rest \<Rightarrow> Some v)"

section \<open>Configuration and the provider registry\<close>

record ModelProvider =
  name :: string
  api_base_url :: string
  api_key :: string
  models :: "string list"

record RouterConfig =
  background :: "string option"
  think :: "string option"
  longContext :: "string option"

text \<open>
  The configuration object that \<^verbatim>\<open>run\<close> reads. \<open>Providers\<close> is \<open>None\<close> when
  \<^verbatim>\<open>config.Providers\<close> is not an array, \<open>Router\<close> is \<open>None\<close> when \<^verbatim>\<open>config.Router\<close> is absent.
\<close>

record Config =
  OPENAI_API_KEY :: "string option"
  OPENAI_BASE_URL :: "string option"
  OPENAI_MODEL :: "string option"
  Providers :: "ModelProvider list option"
  Router :: "RouterConfig option"

type_synonym registry = "(string, ModelProvider) js_map"

text \<open>
  \<^verbatim>\<open>if (Array.isArray(config.Providers)) config.Providers.forEach(p => Providers.set(p.name, p))\<close>
\<close>

definition register_providers :: "Config \<Rightarrow> registry" where
  "register_providers config =
     (case Providers config of
        None \<Rightarrow> []
      | Some ps \<Rightarrow> foldl (\<lambda>m provider. Map_set m (name provider) provider) [] ps)"

text \<open>
  \<^verbatim>\<open>config.OPENAI_API_KEY && config.OPENAI_BASE_URL && config.OPENAI_MODEL\<close>: the triple, when
  all three values are truthy.
\<close>

definition default_triple :: "Config \<Rightarrow> (string \<times> string \<times> string) option" where
  "default_triple config =
     (case (OPENAI_API_KEY config, OPENAI_BASE_URL config, OPENAI_MODEL config) of
        (Some k, Some u, Some m) \<Rightarrow>
          if k \<noteq> [] \<and> u \<noteq> [] \<and> m \<noteq> [] then Some (k, u, m) else None
      | _ \<Rightarrow> None)"

text \<open>
  The registration of \<^verbatim>\<open>"default"\<close>: the provider built from the triple, else an alias of the
  first value of the map when the map is not empty, else nothing.
\<close>

definition register_default :: "Config \<Rightarrow> registry \<Rightarrow> registry" where
  "register_default config m =
     (case default_triple config of
        Some (k, u, mdl) \<Rightarrow>
          Map_set m ''default''
            \<lparr>name = ''default'', api_base_url = u, api_key = k, models = [mdl]\<rparr>
      | None \<Rightarrow>
          if Map_size m > 0 then
            (case Map_first_value m of
               Some defaultProvider \<Rightarrow> Map_set m ''default'' defaultProvider
             | None \<Rightarrow> m)
          else m)"

definition startup_registry :: "Config \<Rightarrow> registry" where
  "startup_registry config = register_default config (register_providers config)"

text \<open>
  The record that the registry holds under the name registered first: \<^verbatim>\<open>Map.set\<close> on a name
  that is already a key replaces the record and keeps the key's place, so this is the last
  configured record that bears the first record's name (the first record itself when the
  configured names are distinct).
\<close>

definition first_registered :: "ModelProvider list \<Rightarrow> ModelProvider option" where
  "first_registered ps =
     (case ps of
        [] \<Rightarrow> None
      | p # rest \<Rightarrow> Some (last (p # filter (\<lambda>q. name q = name p) rest)))"

section \<open>The client cache\<close>

text \<open>
  An \<^verbatim>\<open>OpenAI\<close> client object. \<open>oid\<close> is the identity of the object: every
  \<^verbatim>\<open>new OpenAI(...)\<close> yields an object distinct from all earlier ones. \<open>httpAgent\<close> is the
  proxy URL of the \<^verbatim>\<open>HttpsProxyAgent\<close>, if any.
\<close>

record OpenAI =
  oid :: nat
  baseURL :: string
  apiKey :: string
  httpAgent :: "string option"

type_synonym env = "string \<Rightarrow> string option"

text \<open>
  A thrown JavaScript error: an \<^verbatim>\<open>Error\<close> or a \<^verbatim>\<open>TypeError\<close>, with its message.
\<close>

datatype error = Error string | TypeError string

text \<open>
  What the gateway's process reads from its surroundings when it builds a client:
  \<^verbatim>\<open>process.env\<close>, as it is once \<^verbatim>\<open>initConfig\<close> has copied the configuration into it
  (nothing assigns to it afterwards), and which strings the runtime's \<^verbatim>\<open>new URL(...)\<close>
  accepts. The URL parser is part of the runtime, not of the repository, and is a parameter.
\<close>

record runtime =
  env_vars :: env
  url_ok :: "string \<Rightarrow> bool"

text \<open>
  \<^verbatim>\<open>new HttpsProxyAgent(proxy)\<close> of the npm package https-proxy-agent, which is not part of the
  repository: the constructor parses the string with \<^verbatim>\<open>new URL(proxy)\<close>, which throws the
  \<^verbatim>\<open>TypeError\<close> \<^verbatim>\<open>Invalid URL\<close> for a string that is not a URL. The agent is represented by its
  proxy URL. The argument is the value of the environment variable.
\<close>

definition new_HttpsProxyAgent :: "runtime \<Rightarrow> string option \<Rightarrow> error + string option" where
  "new_HttpsProxyAgent rt proxy =
     (case proxy of
        None \<Rightarrow> Inl (TypeError ''Invalid URL'')
      | Some u \<Rightarrow> if url_ok rt u then Inr (Some u) else Inl (TypeError ''Invalid URL''))"

text \<open>
  \<^verbatim>\<open>getOpenAICommonOptions()\<close>: the \<^verbatim>\<open>httpAgent\<close> option, if any, or the error that the
  construction of the agent throws.
\<close>

definition getOpenAICommonOptions :: "runtime \<Rightarrow> error + string option" where
  "getOpenAICommonOptions rt =
     (if truthy (env_vars rt ''PROXY_URL'') then
        new_HttpsProxyAgent rt (env_vars rt ''PROXY_URL'')
      else if truthy (env_vars rt ''HTTPS_PROXY'') then
        new_HttpsProxyAgent rt (env_vars rt ''HTTPS_PROXY'')
      else Inr None)"

text \<open>
  \<^verbatim>\<open>new LRUCache<string, OpenAI>({ max: 10, ttl: 2 * 60 * 60 * 1000 })\<close>. The class comes from
  the npm package lru-cache, which is not part of the repository; the model follows the
  package's documented behaviour for exactly these two options, every other option at its
  default (\<^verbatim>\<open>updateAgeOnGet\<close>, \<^verbatim>\<open>allowStale\<close>, \<^verbatim>\<open>ttlAutopurge\<close> and
  \<^verbatim>\<open>noDeleteOnStaleGet\<close> are all false):
  \<^item> an entry records the time at which \<^verbatim>\<open>set\<close> stored it, and is stale once more than
    \<open>ttl\<close> milliseconds have passed since then; \<^verbatim>\<open>get\<close> does not renew that time;
  \<^item> \<^verbatim>\<open>get\<close> of a stale entry deletes it and returns \<^verbatim>\<open>undefined\<close>; stale entries are
    not removed at any other moment;
  \<^item> \<^verbatim>\<open>get\<close> of a fresh entry and every \<^verbatim>\<open>set\<close> make the entry the most recently used;
  \<^item> \<^verbatim>\<open>set\<close> of a new key in a cache that holds \<open>max\<close> entries first drops the least
    recently used entry.
  The cache is the list of its entries (key, value, time stored), least recently used
  first. Time is in milliseconds since the process started, as \<^verbatim>\<open>performance.now()\<close>
  reports it; it is positive when the gateway handles a request.
\<close>

definition cache_max :: nat where
  "cache_max = 10"

definition cache_ttl :: nat where
  "cache_ttl = 2 * 60 * 60 * 1000"

type_synonym 'v lru = "(string \<times> 'v \<times> nat) list"

definition isStale :: "nat \<Rightarrow> nat \<Rightarrow> bool" where
  "isStale now start = (now - start > cache_ttl)"

definition LRU_delete :: "'v lru \<Rightarrow> string \<Rightarrow> 'v lru" where
  "LRU_delete c k = filter (\<lambda>e. fst e \<noteq> k) c"

definition LRU_get :: "'v lru \<Rightarrow> string \<Rightarrow> nat \<Rightarrow> 'v option \<times> 'v lru" where
  "LRU_get c k now =
     (case map_of c k of
        None \<Rightarrow> (None, c)
      | Some (v, start) \<Rightarrow>
          if isStale now start then (None, LRU_delete c k)
          else (Some v, LRU_delete c k @ [(k, v, start)]))"

definition LRU_set :: "'v lru \<Rightarrow> string \<Rightarrow> 'v \<Rightarrow> nat \<Rightarrow> 'v lru" where
  "LRU_set c k v now =
     (if k \<in> fst ` set c then LRU_delete c k @ [(k, v, now)]
      else if length c = cache_max then tl c @ [(k, v, now)]
      else c @ [(k, v, now)])"

text \<open>
  The mutable state that \<^verbatim>\<open>getProviderInstance\<close> closes over: the cache, and the number of
  client objects constructed so far (the identity of the next one).
\<close>

record gateway_state =
  providerCache :: "OpenAI lru"
  constructed :: nat

definition initial_state :: gateway_state where
  "initial_state = \<lparr>providerCache = [], constructed = 0\<rparr>"

text \<open>
  \<^verbatim>\<open>new OpenAI({ baseURL: provider.api_base_url, apiKey: provider.api_key,
  ...getOpenAICommonOptions() })\<close>, the \<open>i\<close>-th object constructed, once
  \<^verbatim>\<open>getOpenAICommonOptions()\<close> has returned the options \<open>agent\<close>.
\<close>

definition new_OpenAI :: "string option \<Rightarrow> ModelProvider \<Rightarrow> nat \<Rightarrow> OpenAI" where
  "new_OpenAI agent p i =
     \<lparr>oid = i, baseURL = api_base_url p, apiKey = api_key p, httpAgent = agent\<rparr>"

text \<open>
  \<^verbatim>\<open>getProviderInstance(providerName)\<close> at time \<open>now\<close>. An exception is the \<open>Inl\<close> branch,
  with the state it leaves: the \<^verbatim>\<open>throw\<close> for an unregistered name leaves the state as it
  was; an error thrown by \<^verbatim>\<open>getOpenAICommonOptions()\<close>, which is evaluated inside the
  argument of \<^verbatim>\<open>new OpenAI\<close>, comes after \<^verbatim>\<open>providerCache.get\<close> and before
  \<^verbatim>\<open>providerCache.set\<close>. The cache key is \<^verbatim>\<open>provider.name\<close>, the name field of the
  record found, not \<^verbatim>\<open>providerName\<close>. A client object is always truthy, so \<^verbatim>\<open>!openai\<close>
  holds exactly when \<^verbatim>\<open>get\<close> returned \<^verbatim>\<open>undefined\<close>.
\<close>

definition getProviderInstance ::
  "runtime \<Rightarrow> registry \<Rightarrow> gateway_state \<Rightarrow> string \<Rightarrow> nat \<Rightarrow>
   (error \<times> gateway_state) + (OpenAI \<times> gateway_state)" where
  "getProviderInstance e reg st providerName now =
     (case Map_get reg providerName of
        None \<Rightarrow> Inl (Error (''Provider '' @ providerName @ '' not found''), st)
      | Some provider \<Rightarrow>
          (case LRU_get (providerCache st) (name provider) now of
             (Some openai, c) \<Rightarrow> Inr (openai, st\<lparr>providerCache := c\<rparr>)
           | (None, c) \<Rightarrow>
               (case getOpenAICommonOptions e of
                  Inl err \<Rightarrow> Inl (err, st\<lparr>providerCache := c\<rparr>)
                | Inr agent \<Rightarrow>
                    let openai = new_OpenAI agent provider (constructed st)
                    in Inr (openai, \<lparr>providerCache = LRU_set c (name provider) openai now,
                                     constructed = Suc (constructed st)\<rparr>))))"

text \<open>
  The state after a history of calls \<^verbatim>\<open>getProviderInstance(name)\<close>, each with the time at
  which it ran, whether they returned or threw. The states the running gateway can be in
  are those of \<open>lookups e reg initial_state history\<close>: nothing else touches the cache.
\<close>

fun lookups :: "runtime \<Rightarrow> registry \<Rightarrow> gateway_state \<Rightarrow> (string \<times> nat) list \<Rightarrow> gateway_state" where
  "lookups e reg st [] = st"
| "lookups e reg st ((n, t) # calls) =
     (case getProviderInstance e reg st n t of
        Inl (err, st') \<Rightarrow> lookups e reg st' calls
      | Inr (openai, st') \<Rightarrow> lookups e reg st' calls)"

text \<open>
  The identities of the clients that the calls of a history return, in order (\<open>None\<close> for
  a call that throws).
\<close>

fun handles :: "runtime \<Rightarrow> registry \<Rightarrow> gateway_state \<Rightarrow> (string \<times> nat) list \<Rightarrow> nat option list" where
  "handles e reg st [] = []"
| "handles e reg st ((n, t) # calls) =
     (case getProviderInstance e reg st n t of
        Inl (err, st') \<Rightarrow> None # handles e reg st' calls
      | Inr (openai, st') \<Rightarrow> Some (oid openai) # handles e reg st' calls)"

text \<open>
  What every reachable state satisfies: the keys of the cache are distinct, it holds at most
  \<open>cache_max\<close> entries, and every client in it was constructed earlier.
\<close>

definition cache_inv :: "gateway_state \<Rightarrow> bool" where
  "cache_inv st =
     (distinct (map fst (providerCache st)) \<and> length (providerCache st) \<le> cache_max \<and>
      (\<forall>entry \<in> set (providerCache st). oid (fst (snd entry)) < constructed st))"

section \<open>The middleware pipeline\<close>

text \<open>
  The middlewares that \<^verbatim>\<open>run\<close> installs. \<open>AttachConfig\<close> is the first arrow function
  (\<^verbatim>\<open>req.config = config\<close>), \<open>DefaultRoute\<close> the arrow function of the \<^verbatim>\<open>else\<close> branch;
  \<open>RewriteBody\<close>, \<open>RouterMiddleware\<close> and \<open>FormatRequest\<close> are the imported
  \<^verbatim>\<open>rewriteBody\<close>, \<^verbatim>\<open>router\<close> and \<^verbatim>\<open>formatRequest\<close>.
\<close>

datatype middleware = AttachConfig | RewriteBody | RouterMiddleware | DefaultRoute | FormatRequest

text \<open>
  \<^verbatim>\<open>config.Router?.background && config.Router?.think && config?.Router?.longContext\<close>
\<close>

definition router_rules_present :: "Config \<Rightarrow> bool" where
  "router_rules_present config =
     (case Router config of
        None \<Rightarrow> False
      | Some r \<Rightarrow> truthy (background r) \<and> truthy (think r) \<and> truthy (longContext r))"

text \<open>
  The four calls of \<^verbatim>\<open>server.useMiddleware\<close> in \<^verbatim>\<open>run\<close>. The method is defined in
  \<^verbatim>\<open>./server\<close>, which is not among the sources: it is the parameter \<open>useMiddleware\<close>, which
  takes the server and a middleware and gives the server with the middleware installed.
\<close>

definition install_middlewares :: "('s \<Rightarrow> middleware \<Rightarrow> 's) \<Rightarrow> Config \<Rightarrow> 's \<Rightarrow> 's" where
  "install_middlewares useMiddleware config server =
     (let s1 = useMiddleware server AttachConfig;
          s2 = useMiddleware s1 RewriteBody;
          s3 = (if router_rules_present config then useMiddleware s2 RouterMiddleware
                else useMiddleware s2 DefaultRoute)
      in useMiddleware s3 FormatRequest)"

text \<open>A server that records the middlewares installed, in order.\<close>

definition record_middleware :: "middleware list \<Rightarrow> middleware \<Rightarrow> middleware list" where
  "record_middleware server m = server @ [m]"

text \<open>
  A request as the middlewares see it: \<^verbatim>\<open>req.provider\<close>, \<^verbatim>\<open>req.body\<close> with its
  \<^verbatim>\<open>model\<close> field and everything else the caller sent (\<open>params\<close>: messages, flags, hints),
  and \<^verbatim>\<open>req.config\<close>.
\<close>

record 'b RequestBody =
  model :: "string option"
  params :: 'b

record 'b Request =
  provider :: "string option"
  body :: "'b RequestBody"
  req_config :: "Config option"

text \<open>
  The \<^verbatim>\<open>else\<close> branch's middleware:
  \<^verbatim>\<open>req.provider = "default"; req.body.model = config.OPENAI_MODEL; next();\<close>
\<close>

definition default_route :: "Config \<Rightarrow> 'b Request \<Rightarrow> 'b Request" where
  "default_route config req =
     req\<lparr>provider := Some ''default'', body := (body req)\<lparr>model := OPENAI_MODEL config\<rparr>\<rparr>"

text \<open>
  The first middleware: \<^verbatim>\<open>req.config = config; next();\<close> (after a line on the console).
\<close>

definition attach_config :: "Config \<Rightarrow> 'b Request \<Rightarrow> 'b Request" where
  "attach_config config req = req\<lparr>req_config := Some config\<rparr>"

text \<open>
  What a middleware does to the request before it calls \<^verbatim>\<open>next()\<close>, for the two arrow
  functions written in \<^verbatim>\<open>run\<close>; \<open>None\<close> for the three imported middlewares, whose code is
  not among the sources.
\<close>

fun arrow_function :: "Config \<Rightarrow> middleware \<Rightarrow> ('b Request \<Rightarrow> 'b Request) option" where
  "arrow_function config AttachConfig = Some (attach_config config)"
| "arrow_function config DefaultRoute = Some (default_route config)"
| "arrow_function config RewriteBody = None"
| "arrow_function config RouterMiddleware = None"
| "arrow_function config FormatRequest = None"

section \<open>The handler of POST /v1/messages\<close>

text \<open>\<^verbatim>\<open>req.provider || "default"\<close>\<close>

definition provider_or_default :: "string option \<Rightarrow> string" where
  "provider_or_default p =
     (case p of None \<Rightarrow> ''default'' | Some s \<Rightarrow> if s \<noteq> [] then s else ''default'')"

datatype console_line = ConsoleError string error

text \<open>
  What one run of the handler leaves behind: what was written to \<^verbatim>\<open>res\<close>, the lines printed
  with \<^verbatim>\<open>console.error\<close>, and the state of the cache.
\<close>

record 'w HandlerResult =
  written :: "'w list"
  console :: "console_line list"
  state_after :: gateway_state

text \<open>
  The handler, with the two calls it makes out of the sources as parameters:
  \<^item> \<open>create\<close> is \<^verbatim>\<open>provider.chat.completions.create(req.body)\<close> of the OpenAI SDK: it
    returns a completion or throws;
  \<^item> \<open>streamOpenAIResponse\<close> is imported from \<^verbatim>\<open>./utils/stream\<close>, which is not among the
    sources: it is given by what it writes to \<^verbatim>\<open>res\<close> and the error it throws, if any.
  The body of the handler is one \<^verbatim>\<open>try\<close> block whose \<^verbatim>\<open>catch\<close> prints the error and does
  nothing else. The result is \<open>Inr\<close> when the handler returns and would be \<open>Inl\<close> for an
  exception that leaves it.
\<close>

definition messages_handler ::
  "runtime \<Rightarrow> registry \<Rightarrow> (OpenAI \<Rightarrow> 'b RequestBody \<Rightarrow> error + 'c) \<Rightarrow>
   ('c \<Rightarrow> string option \<Rightarrow> 'b RequestBody \<Rightarrow> 'w list \<times> error option) \<Rightarrow>
   gateway_state \<Rightarrow> 'b Request \<Rightarrow> nat \<Rightarrow> error + 'w HandlerResult" where
  "messages_handler e reg create streamOpenAIResponse st req now =
     (case getProviderInstance e reg st (provider_or_default (provider req)) now of
        Inl (err, st') \<Rightarrow>
          Inr \<lparr>written = [], console = [ConsoleError ''Error in OpenAI API call:'' err],
               state_after = st'\<rparr>
      | Inr (openai, st') \<Rightarrow>
          (case create openai (body req) of
             Inl err \<Rightarrow>
               Inr \<lparr>written = [], console = [ConsoleError ''Error in OpenAI API call:'' err],
                    state_after = st'\<rparr>
           | Inr completion \<Rightarrow>
               (case streamOpenAIResponse completion (model (body req)) (body req) of
                  (ws, None) \<Rightarrow> Inr \<lparr>written = ws, console = [], state_after = st'\<rparr>
                | (ws, Some err) \<Rightarrow>
                    Inr \<lparr>written = ws,
                         console = [ConsoleError ''Error in OpenAI API call:'' err],
                         state_after = st'\<rparr>)))"

section \<open>Reading the configuration file\<close>

text \<open>
  JSON values. Numbers are integers here: the only thing that is asked of a value is whether
  it is truthy, and a JSON number is falsy exactly when it is zero.
\<close>

datatype json =
  JNull | JBool bool | JNumber int | JString string | JArray "json list"
  | JObject "(string \<times> json) list"

fun js_truthy :: "json \<Rightarrow> bool" where
  "js_truthy JNull = False"
| "js_truthy (JBool b) = b"
| "js_truthy (JNumber n) = (n \<noteq> 0)"
| "js_truthy (JString s) = (s \<noteq> [])"
| "js_truthy (JArray xs) = True"
| "js_truthy (JObject kvs) = True"

type_synonym json_object = "string \<Rightarrow> json option"

text \<open>\<^verbatim>\<open>config[field]\<close> as a condition: a missing field is \<^verbatim>\<open>undefined\<close>, which is falsy.\<close>

definition field_truthy :: "json_object \<Rightarrow> string \<Rightarrow> bool" where
  "field_truthy obj field = (case obj field of None \<Rightarrow> False | Some v \<Rightarrow> js_truthy v)"

text \<open>
  A file holds a JSON object, or text that \<^verbatim>\<open>JSON.parse\<close> rejects. The file system maps a path
  to its file; \<open>None\<close> is a path with no file.
\<close>

datatype file_content = JsonText json_object | Unparsable

type_synonym filesystem = "string \<Rightarrow> file_content option"

definition requiredFields :: "string list" where
  "requiredFields = [''OPENAI_API_KEY'', ''OPENAI_BASE_URL'', ''OPENAI_MODEL'']"

record loop_state =
  current :: json_object
  needsUpdate :: bool
  asked :: "string list"

text \<open>
  One round of the loop over \<open>requiredFields\<close>. \<open>answer\<close> gives the line the user types in
  reply to a prompt; \<open>asked\<close> collects the prompts shown.
\<close>

definition check_field :: "env \<Rightarrow> (string \<Rightarrow> string) \<Rightarrow> loop_state \<Rightarrow> string \<Rightarrow> loop_state" where
  "check_field e answer s field =
     (if truthy (e field) then
        s\<lparr>current := (current s)(field := map_option JString (e field))\<rparr>
      else if \<not> field_truthy (current s) field then
        s\<lparr>current := (current s)(field \<mapsto> JString (answer (''Enter '' @ field @ '': ''))),
          needsUpdate := True,
          asked := asked s @ [''Enter '' @ field @ '': '']\<rparr>
      else s)"

text \<open>
  \<^verbatim>\<open>writeConfigFile\<close>: the file then holds the serialised object. \<open>getConfigFile\<close> comes from
  \<^verbatim>\<open>../constants\<close>, which is not among the sources, and is a parameter.
\<close>

definition writeConfigFile ::
  "(string option \<Rightarrow> string) \<Rightarrow> filesystem \<Rightarrow> json_object \<Rightarrow> string option \<Rightarrow> filesystem" where
  "writeConfigFile getConfigFile fs obj customConfigPath =
     fs(getConfigFile customConfigPath \<mapsto> JsonText obj)"

text \<open>
  The first \<^verbatim>\<open>try\<close> block of \<^verbatim>\<open>readConfigFile\<close>: the object parsed from the file, or the
  empty object when the file is missing or does not parse.
\<close>

definition existingConfig :: "filesystem \<Rightarrow> string \<Rightarrow> json_object" where
  "existingConfig fs configFile =
     (case fs configFile of Some (JsonText obj) \<Rightarrow> obj | _ \<Rightarrow> Map.empty)"

text \<open>
  \<^verbatim>\<open>readConfigFile\<close>: the configuration returned, the file system afterwards and the prompts
  shown. \<open>DEFAULT_CONFIG\<close> also comes from \<^verbatim>\<open>../constants\<close> and is a parameter;
  \<^verbatim>\<open>Object.assign({}, DEFAULT_CONFIG, existingConfig)\<close> lets the file's fields override it.
\<close>

definition readConfigFile ::
  "(string option \<Rightarrow> string) \<Rightarrow> json_object \<Rightarrow> env \<Rightarrow> (string \<Rightarrow> string) \<Rightarrow> filesystem \<Rightarrow>
   string option \<Rightarrow> json_object \<times> filesystem \<times> string list" where
  "readConfigFile getConfigFile DEFAULT_CONFIG e answer fs customConfigPath =
     (let configFile = getConfigFile customConfigPath;
          merged = DEFAULT_CONFIG ++ existingConfig fs configFile;
          s = foldl (check_field e answer)
                \<lparr>current = merged, needsUpdate = False, asked = []\<rparr> requiredFields
      in (current s,
          if needsUpdate s then writeConfigFile getConfigFile fs (current s) customConfigPath
          else fs,
          asked s))"

text \<open>
  What holds of the loop state after the fields \<open>seen\<close> have been checked, starting from the
  object \<open>c0\<close>: the flag is set exactly when a prompt was shown; every prompt shown is for a
  field that neither the environment nor \<open>c0\<close> supplies; every field is untouched, taken
  from the environment, or was supplied by neither; and a field the environment supplies
  holds the environment's value.
\<close>

definition loop_inv :: "env \<Rightarrow> (string \<Rightarrow> string) \<Rightarrow> json_object \<Rightarrow> string list \<Rightarrow> loop_state \<Rightarrow> bool" where
  "loop_inv e answer c0 seen s =
     ((needsUpdate s \<longleftrightarrow> asked s \<noteq> []) \<and>
      (\<forall>q \<in> set (asked s). \<exists>f \<in> set seen.
          q = ''Enter '' @ f @ '': '' \<and> \<not> truthy (e f) \<and> \<not> field_truthy c0 f) \<and>
      (\<forall>f. current s f = c0 f
           \<or> truthy (e f) \<and> current s f = map_option JString (e f)
           \<or> \<not> field_truthy c0 f \<and> \<not> truthy (e f)) \<and>
      (\<forall>f \<in> set seen. truthy (e f) \<longrightarrow> current s f = map_option JString (e f)))"

section \<open>The streaming response adapter\<close>

text \<open>
  Modelled from the spec: \<^verbatim>\<open>streamOpenAIResponse\<close> (\<^verbatim>\<open>./utils/stream\<close>) is not among the
  sources. What the backend delivers in streaming mode is a sequence of partial-content
  chunks and a stop signal; what the caller receives is a sequence of events: a start
  marker, content deltas and a terminal marker.
\<close>

datatype 'c backend_item = Chunk 'c | STOP

datatype 'c StreamEvent = Start | Delta 'c | Terminal

text \<open>
  Modelled from the spec: the adapter's state is the events emitted so far, whether the
  caller-facing channel is closed, and whether the context is marked with the
  stream-truncated error.
\<close>

record 'c adapter =
  emitted :: "'c StreamEvent list"
  closed :: bool
  truncated :: bool

text \<open>Modelled from the spec: the adapter opens the caller's stream with the start event.\<close>

definition adapt_open :: "'c adapter" where
  "adapt_open = \<lparr>emitted = [Start], closed = False, truncated = False\<rparr>"

text \<open>
  Modelled from the spec: the adapter forwards each backend chunk as one content delta as
  soon as it is received, and on the stop signal emits the one terminal event and closes the
  channel. Nothing is emitted on a closed channel.
\<close>

fun adapt_item :: "'c adapter \<Rightarrow> 'c backend_item \<Rightarrow> 'c adapter" where
  "adapt_item a (Chunk c) = (if closed a then a else a\<lparr>emitted := emitted a @ [Delta c]\<rparr>)"
| "adapt_item a STOP =
     (if closed a then a else a\<lparr>emitted := emitted a @ [Terminal], closed := True\<rparr>)"

text \<open>
  Modelled from the spec: when the backend stream ends without a stop signal, the adapter
  still emits the terminal event, closes the channel and marks the context as truncated.
\<close>

definition adapt_end :: "'c adapter \<Rightarrow> 'c adapter" where
  "adapt_end a =
     (if closed a then a
      else a\<lparr>emitted := emitted a @ [Terminal], closed := True, truncated := True\<rparr>)"

text \<open>
  Modelled from the spec: the adapter after the backend has delivered \<open>items\<close>, in the order
  of their arrival.
\<close>

definition received :: "'c backend_item list \<Rightarrow> 'c adapter" where
  "received items = foldl adapt_item adapt_open items"

text \<open>Modelled from the spec: the adapter after the backend stream has ended.\<close>

definition adapt :: "'c backend_item list \<Rightarrow> 'c adapter" where
  "adapt items = adapt_end (received items)"

section \<open>Example inputs\<close>

text \<open>
  A configuration with two named providers whose \<^verbatim>\<open>OPENAI_API_KEY\<close> is the empty string (the
  user answered the prompt with an empty line), so that the triple is incomplete and
  \<^verbatim>\<open>"default"\<close> is an alias; and an environment with no variable set.
\<close>

definition provider_a :: ModelProvider where
  "provider_a = \<lparr>name = ''a'', api_base_url = ''https://a.example/v1'', api_key = ''ka'',
                  models = [''a1'', ''a2'']\<rparr>"

definition provider_b :: ModelProvider where
  "provider_b = \<lparr>name = ''b'', api_base_url = ''https://b.example/v1'', api_key = ''kb'',
                  models = [''b1'']\<rparr>"

definition config_named :: Config where
  "config_named = \<lparr>OPENAI_API_KEY = Some '''', OPENAI_BASE_URL = Some ''https://o.example/v1'',
                    OPENAI_MODEL = Some ''m'', Providers = Some [provider_a, provider_b],
                    Router = None\<rparr>"

definition no_env :: env where
  "no_env = (\<lambda>v. None)"

text \<open>
  A runtime with no proxy variable set, and one whose \<^verbatim>\<open>PROXY_URL\<close> is not a URL. The URL
  parser of the examples accepts the strings that start with \<^verbatim>\<open>http://\<close> or
  \<^verbatim>\<open>https://\<close>.
\<close>

definition example_url_ok :: "string \<Rightarrow> bool" where
  "example_url_ok u = (take 7 u = ''http://'' \<or> take 8 u = ''https://'')"

definition no_proxy :: runtime where
  "no_proxy = \<lparr>env_vars = no_env, url_ok = example_url_ok\<rparr>"

definition bad_proxy :: runtime where
  "bad_proxy = \<lparr>env_vars = no_env(''PROXY_URL'' \<mapsto> ''not a url''), url_ok = example_url_ok\<rparr>"

text \<open>
  The client that the first lookup of \<open>a\<close> constructs at time 1000, and the state it leaves.
\<close>

definition client_a0 :: OpenAI where
  "client_a0 = new_OpenAI None provider_a 0"

definition state_a0 :: gateway_state where
  "state_a0 = \<lparr>providerCache = [(''a'', client_a0, 1000)], constructed = 1\<rparr>"

text \<open>
  A configuration with eleven named providers, and eleven lookups, one per provider, at
  successive milliseconds.
\<close>

definition numbered :: "string \<Rightarrow> ModelProvider" where
  "numbered s = \<lparr>name = s, api_base_url = ''https://'' @ s @ ''.example/v1'', api_key = ''k'',
                 models = [s]\<rparr>"

definition eleven_names :: "string list" where
  "eleven_names = [''p0'', ''p1'', ''p2'', ''p3'', ''p4'', ''p5'', ''p6'', ''p7'', ''p8'', ''p9'',
                   ''p10'']"

definition config_eleven :: Config where
  "config_eleven = \<lparr>OPENAI_API_KEY = None, OPENAI_BASE_URL = None, OPENAI_MODEL = None,
                     Providers = Some (map numbered eleven_names), Router = None\<rparr>"

definition eleven_lookups :: "(string \<times> nat) list" where
  "eleven_lookups =
     zip eleven_names [1000, 1001, 1002, 1003, 1004, 1005, 1006, 1007, 1008, 1009, 1010]"

text \<open>The state after the first ten of these lookups.\<close>

definition state_ten :: gateway_state where
  "state_ten = lookups no_proxy (startup_registry config_eleven) initial_state (butlast eleven_lookups)"

text \<open>
  A configuration with the complete triple and nothing else, one with all three routing
  rules and one with only some of them; requests that carry a provider
  hint and flags, an unregistered provider, and no provider; a backend whose call fails and
  a stream writer that writes the completion.
\<close>

definition config_triple :: Config where
  "config_triple = \<lparr>OPENAI_API_KEY = Some ''sk'', OPENAI_BASE_URL = Some ''https://o.example/v1'',
                     OPENAI_MODEL = Some ''m'', Providers = None, Router = None\<rparr>"

definition config_routed :: Config where
  "config_routed =
     \<lparr>OPENAI_API_KEY = Some ''sk'', OPENAI_BASE_URL = Some ''https://o.example/v1'',
      OPENAI_MODEL = Some ''m'', Providers = Some [provider_a, provider_b],
      Router = Some \<lparr>background = Some ''b:b1'', think = Some ''a:a2'',
                     longContext = Some ''a:a1''\<rparr>\<rparr>"

definition config_partial :: Config where
  "config_partial =
     \<lparr>OPENAI_API_KEY = Some ''sk'', OPENAI_BASE_URL = Some ''https://o.example/v1'',
      OPENAI_MODEL = Some ''m'', Providers = Some [provider_a, provider_b],
      Router = Some \<lparr>background = Some ''b:b1'', think = Some [], longContext = None\<rparr>\<rparr>"

definition background_request :: "string Request" where
  "background_request =
     \<lparr>provider = Some ''other'',
      body = \<lparr>model = Some ''claude-3-5-haiku'', params = ''background, thinking''\<rparr>,
      req_config = None\<rparr>"

definition unknown_request :: "string Request" where
  "unknown_request =
     \<lparr>provider = Some ''nobody'', body = \<lparr>model = Some ''m'', params = ''hello''\<rparr>,
      req_config = None\<rparr>"

definition default_request :: "string Request" where
  "default_request =
     \<lparr>provider = None, body = \<lparr>model = Some ''m'', params = ''hello''\<rparr>, req_config = None\<rparr>"

definition failing_backend :: "OpenAI \<Rightarrow> string RequestBody \<Rightarrow> error + string" where
  "failing_backend client b = Inl (Error ''connect ECONNREFUSED'')"

definition echo_stream :: "string \<Rightarrow> string option \<Rightarrow> string RequestBody \<Rightarrow> string list \<times> error option" where
  "echo_stream completion m b = ([completion], None)"

text \<open>
  Inputs of \<^verbatim>\<open>readConfigFile\<close>: the default path, a configuration file that holds a key and
  a model, an environment that holds a key and a base URL, and a user who types the same
  line at every prompt.
\<close>

definition home_config_path :: "string option \<Rightarrow> string" where
  "home_config_path customConfigPath =
     (case customConfigPath of None \<Rightarrow> ''/home/u/.claude-code-router/config.json''
      | Some p \<Rightarrow> p)"

definition file_with_key :: filesystem where
  "file_with_key =
     [''/home/u/.claude-code-router/config.json'' \<mapsto>
        JsonText [''OPENAI_API_KEY'' \<mapsto> JString ''key-from-file'',
                  ''OPENAI_MODEL'' \<mapsto> JString ''model-from-file'']]"

definition env_with_key :: env where
  "env_with_key = [''OPENAI_API_KEY'' \<mapsto> ''key-from-env'',
                   ''OPENAI_BASE_URL'' \<mapsto> ''https://env.example/v1'']"

definition typed_answer :: "string \<Rightarrow> string" where
  "typed_answer query = ''typed''"

section \<open>The provider registry\<close>

lemma map_of_Map_set: "map_of (Map_set m k v) = (map_of m)(k \<mapsto> v)"
  by (induction m k v rule: Map_set.induct) auto

lemma Map_get_Map_set: "Map_get (Map_set m k v) k' = (if k' = k then Some v else Map_get m k')"
  by (simp add: Map_get_def map_of_Map_set)

lemma Map_get_Nil: "Map_get [] k = None"
  by (simp add: Map_get_def)

lemma Map_get_Cons: "Map_get ((k, v) # m) k' = (if k' = k then Some v else Map_get m k')"
  by (simp add: Map_get_def)

lemma Map_first_value_Map_set:
  "Map_first_value (Map_set m k v) =
     (case m of [] \<Rightarrow> Some v | (k', v') # rest \<Rightarrow> if k' = k then Some v else Some v')"
  by (cases m) (auto simp: Map_first_value_def)

lemma Map_set_keys:
  "map fst (Map_set m k v) = (if k \<in> set (map fst m) then map fst m else map fst m @ [k])"
  by (induction m k v rule: Map_set.induct) auto

lemma Map_set_distinct: "distinct (map fst m) \<Longrightarrow> distinct (map fst (Map_set m k v))"
  by (simp add: Map_set_keys)


lemma register_all_get:
  "Map_get (foldl (\<lambda>m provider. Map_set m (name provider) provider) m ps) k =
     (case filter (\<lambda>q. name q = k) ps of [] \<Rightarrow> Map_get m k | q # qs \<Rightarrow> Some (last (q # qs)))"
proof (induction ps arbitrary: m)
  case Nil
  then show ?case by simp
next
  case (Cons p ps)
  show ?case
    by (simp add: Cons.IH Map_get_Map_set split: list.splits)
qed

lemma register_all_keys_first:
  "m \<noteq> [] \<Longrightarrow> map fst (foldl (\<lambda>m provider. Map_set m (name provider) provider) m ps) \<noteq> [] \<and>
     hd (map fst (foldl (\<lambda>m provider. Map_set m (name provider) provider) m ps)) = hd (map fst m)"
proof (induction ps arbitrary: m)
  case Nil
  then show ?case by simp
next
  case (Cons p ps)
  have ne: "Map_set m (name p) p \<noteq> []" by (cases m) (auto split: if_splits)
  have "hd (map fst (Map_set m (name p) p)) = hd (map fst m)"
    using Cons.prems by (cases m) auto
  with Cons.IH [OF ne] show ?case by simp
qed

lemma Map_first_value_get:
  "distinct (map fst m) \<Longrightarrow> m \<noteq> [] \<Longrightarrow> Map_first_value m = Map_get m (hd (map fst m))"
  by (cases m) (auto simp: Map_first_value_def Map_get_def)


lemma register_all_distinct:
  "distinct (map fst m) \<Longrightarrow>
     distinct (map fst (foldl (\<lambda>m provider. Map_set m (name provider) provider) m ps))"
  by (induction ps arbitrary: m) (simp_all add: Map_set_distinct)

lemma register_providers_first:
  "Map_first_value (register_providers config) =
     (case Providers config of None \<Rightarrow> None | Some ps \<Rightarrow> first_registered ps)"
proof (cases "Providers config")
  case None
  then show ?thesis by (simp add: register_providers_def Map_first_value_def)
next
  case (Some ps)
  show ?thesis
  proof (cases ps)
    case Nil
    with Some show ?thesis
      by (simp add: register_providers_def Map_first_value_def first_registered_def)
  next
    case (Cons p rest)
    let ?f = "\<lambda>m provider. Map_set m (name provider) provider"
    let ?m = "foldl ?f [(name p, p)] rest"
    have m: "register_providers config = ?m"
      using Some Cons by (simp add: register_providers_def)
    have d: "distinct (map fst ?m)"
      by (rule register_all_distinct) simp
    have k: "map fst ?m \<noteq> [] \<and> hd (map fst ?m) = name p"
      using register_all_keys_first [of "[(name p, p)]" rest] by simp
    then have ne: "?m \<noteq> []" by auto
    have "Map_first_value ?m = Map_get ?m (name p)"
      using Map_first_value_get [OF d ne] k by simp
    also have "\<dots> = Some (last (p # filter (\<lambda>q. name q = name p) rest))"
      by (simp add: register_all_get Map_get_Cons split: list.splits)
    finally show ?thesis
      using Some Cons m by (simp add: first_registered_def)
  qed
qed

lemma register_providers_get_first:
  assumes "Providers config = Some (p # rest)"
  shows "Map_get (register_providers config) (name p) = first_registered (p # rest)"
  using assms
  by (simp add: register_providers_def register_all_get Map_get_Cons
      first_registered_def split: list.splits)

lemma startup_default:
  "Map_get (startup_registry config) ''default'' =
     (case default_triple config of
        Some (k, u, mdl) \<Rightarrow>
          Some \<lparr>name = ''default'', api_base_url = u, api_key = k, models = [mdl]\<rparr>
      | None \<Rightarrow> (case Providers config of None \<Rightarrow> None | Some ps \<Rightarrow> first_registered ps))"
proof (cases "default_triple config")
  case (Some t)
  then show ?thesis
    by (cases t) (simp add: startup_registry_def register_default_def Map_get_Map_set)
next
  case None
  let ?m = "register_providers config"
  have "Map_get (register_default config ?m) ''default'' = Map_first_value ?m"
    using None
    by (cases ?m)
      (auto simp: register_default_def Map_size_def Map_first_value_def Map_get_Map_set
        Map_get_Nil Map_get_Cons)
  then show ?thesis
    using None by (simp add: startup_registry_def register_providers_first)
qed

lemma startup_alias_own_name:
  assumes "default_triple config = None" and "Providers config = Some (p # rest)"
  shows "Map_get (startup_registry config) (name p) = first_registered (p # rest)"
proof -
  let ?m = "register_providers config"
  have fv: "Map_first_value ?m = first_registered (p # rest)"
    using assms(2) by (simp add: register_providers_first)
  then obtain r where r: "Map_first_value ?m = Some r" "first_registered (p # rest) = Some r"
    by (simp add: first_registered_def)
  have ne: "Map_size ?m > 0"
    using r(1) by (cases ?m) (auto simp: Map_first_value_def Map_size_def)
  have reg: "startup_registry config = Map_set ?m ''default'' r"
    using assms(1) ne r(1) by (simp add: startup_registry_def register_default_def)
  have own: "Map_get ?m (name p) = Some r"
    using register_providers_get_first [OF assms(2)] r(2) by simp
  show ?thesis
    using own r(2) by (simp add: reg Map_get_Map_set)
qed

lemma first_registered_distinct:
  "\<forall>q \<in> set rest. name q \<noteq> name p \<Longrightarrow> first_registered (p # rest) = Some p"
  by (simp add: first_registered_def filter_empty_conv [THEN iffD2])

lemma first_registered_name:
  "first_registered (p # rest) = Some r \<Longrightarrow> name r = name p"
proof -
  assume a: "first_registered (p # rest) = Some r"
  have "last (p # filter (\<lambda>q. name q = name p) rest) \<in> set (p # filter (\<lambda>q. name q = name p) rest)"
    by (rule last_in_set) simp
  with a show ?thesis by (auto simp: first_registered_def split: if_splits)
qed

text \<open>
  Claim C3. At startup, when \<^verbatim>\<open>OPENAI_API_KEY\<close>, \<^verbatim>\<open>OPENAI_BASE_URL\<close> and \<^verbatim>\<open>OPENAI_MODEL\<close>
  are all set (non-empty), the registry resolves \<^verbatim>\<open>"default"\<close> to the provider built from that
  triple. When one of the three is unset or empty, \<^verbatim>\<open>"default"\<close> resolves to the first value
  of the registry of named providers: to nothing when no provider is configured, and
  otherwise to the record held under the first configured name (the last configured record
  that bears that name, hence the first configured record when no later record bears its
  name), which stays registered under its own name as well. The registry is determined by
  the three fields and the list of providers, so two startups with the same configuration
  register the same provider as \<^verbatim>\<open>"default"\<close>.
\<close>

theorem default_provider_registration:
  "(\<forall>k u m. OPENAI_API_KEY config = Some k \<and> k \<noteq> [] \<and> OPENAI_BASE_URL config = Some u \<and> u \<noteq> []
        \<and> OPENAI_MODEL config = Some m \<and> m \<noteq> [] \<longrightarrow>
        Map_get (startup_registry config) ''default'' =
          Some \<lparr>name = ''default'', api_base_url = u, api_key = k, models = [m]\<rparr>)
   \<and> (OPENAI_API_KEY config = None \<or> OPENAI_API_KEY config = Some []
       \<or> OPENAI_BASE_URL config = None \<or> OPENAI_BASE_URL config = Some []
       \<or> OPENAI_MODEL config = None \<or> OPENAI_MODEL config = Some [] \<longrightarrow>
        Map_get (startup_registry config) ''default'' = Map_first_value (register_providers config)
        \<and> (Providers config = None \<or> Providers config = Some [] \<longrightarrow>
             Map_get (startup_registry config) ''default'' = None)
        \<and> (\<forall>p rest. Providers config = Some (p # rest) \<longrightarrow>
              Map_get (startup_registry config) ''default'' =
                Some (last (p # filter (\<lambda>q. name q = name p) rest))
              \<and> Map_get (startup_registry config) (name p) =
                  Map_get (startup_registry config) ''default''
              \<and> ((\<forall>q \<in> set rest. name q \<noteq> name p) \<longrightarrow>
                   Map_get (startup_registry config) ''default'' = Some p)))
   \<and> (\<forall>config' :: Config. OPENAI_API_KEY config' = OPENAI_API_KEY config
         \<and> OPENAI_BASE_URL config' = OPENAI_BASE_URL config
         \<and> OPENAI_MODEL config' = OPENAI_MODEL config
         \<and> Providers config' = Providers config \<longrightarrow>
         startup_registry config' = startup_registry config)
   \<and> Map_get (startup_registry config) ''default'' =
       (case default_triple config of
          Some (k, u, mdl) \<Rightarrow>
            Some \<lparr>name = ''default'', api_base_url = u, api_key = k, models = [mdl]\<rparr>
        | None \<Rightarrow> (case Providers config of None \<Rightarrow> None | Some ps \<Rightarrow> first_registered ps))"
proof -
  have d: "Map_get (startup_registry config) ''default'' =
     (case default_triple config of
        Some (k, u, mdl) \<Rightarrow>
          Some \<lparr>name = ''default'', api_base_url = u, api_key = k, models = [mdl]\<rparr>
      | None \<Rightarrow> (case Providers config of None \<Rightarrow> None | Some ps \<Rightarrow> first_registered ps))"
    by (rule startup_default)
  have c1: "\<forall>k u m. OPENAI_API_KEY config = Some k \<and> k \<noteq> [] \<and> OPENAI_BASE_URL config = Some u \<and> u \<noteq> []
        \<and> OPENAI_MODEL config = Some m \<and> m \<noteq> [] \<longrightarrow>
        Map_get (startup_registry config) ''default'' =
          Some \<lparr>name = ''default'', api_base_url = u, api_key = k, models = [m]\<rparr>"
  proof (intro allI impI)
    fix k u m
    assume "OPENAI_API_KEY config = Some k \<and> k \<noteq> [] \<and> OPENAI_BASE_URL config = Some u \<and> u \<noteq> []
        \<and> OPENAI_MODEL config = Some m \<and> m \<noteq> []"
    then have "default_triple config = Some (k, u, m)"
      by (simp add: default_triple_def)
    then show "Map_get (startup_registry config) ''default'' =
          Some \<lparr>name = ''default'', api_base_url = u, api_key = k, models = [m]\<rparr>"
      unfolding d by simp
  qed
  have c2: "OPENAI_API_KEY config = None \<or> OPENAI_API_KEY config = Some []
       \<or> OPENAI_BASE_URL config = None \<or> OPENAI_BASE_URL config = Some []
       \<or> OPENAI_MODEL config = None \<or> OPENAI_MODEL config = Some [] \<longrightarrow>
        Map_get (startup_registry config) ''default'' = Map_first_value (register_providers config)
        \<and> (Providers config = None \<or> Providers config = Some [] \<longrightarrow>
             Map_get (startup_registry config) ''default'' = None)
        \<and> (\<forall>p rest. Providers config = Some (p # rest) \<longrightarrow>
              Map_get (startup_registry config) ''default'' =
                Some (last (p # filter (\<lambda>q. name q = name p) rest))
              \<and> Map_get (startup_registry config) (name p) =
                  Map_get (startup_registry config) ''default''
              \<and> ((\<forall>q \<in> set rest. name q \<noteq> name p) \<longrightarrow>
                   Map_get (startup_registry config) ''default'' = Some p))"
  proof (intro impI conjI allI)
    assume "OPENAI_API_KEY config = None \<or> OPENAI_API_KEY config = Some []
       \<or> OPENAI_BASE_URL config = None \<or> OPENAI_BASE_URL config = Some []
       \<or> OPENAI_MODEL config = None \<or> OPENAI_MODEL config = Some []"
    then have n: "default_triple config = None"
      by (auto simp: default_triple_def split: option.splits)
    have dn: "Map_get (startup_registry config) ''default'' =
        (case Providers config of None \<Rightarrow> None | Some ps \<Rightarrow> first_registered ps)"
      unfolding d n by simp
    show "Map_get (startup_registry config) ''default'' = Map_first_value (register_providers config)"
      unfolding dn by (simp add: register_providers_first)
    {
      assume "Providers config = None \<or> Providers config = Some []"
      then show "Map_get (startup_registry config) ''default'' = None"
        unfolding dn by (auto simp: first_registered_def)
    }
    fix p rest
    assume ps: "Providers config = Some (p # rest)"
    show "Map_get (startup_registry config) ''default'' =
            Some (last (p # filter (\<lambda>q. name q = name p) rest))"
      unfolding dn ps by (simp add: first_registered_def)
    show "Map_get (startup_registry config) (name p) = Map_get (startup_registry config) ''default''"
      using startup_alias_own_name [OF n ps] unfolding dn ps by simp
    assume "\<forall>q \<in> set rest. name q \<noteq> name p"
    then show "Map_get (startup_registry config) ''default'' = Some p"
      unfolding dn ps by (simp add: first_registered_distinct)
  qed
  have c3: "\<forall>config' :: Config. OPENAI_API_KEY config' = OPENAI_API_KEY config
         \<and> OPENAI_BASE_URL config' = OPENAI_BASE_URL config
         \<and> OPENAI_MODEL config' = OPENAI_MODEL config
         \<and> Providers config' = Providers config \<longrightarrow>
         startup_registry config' = startup_registry config"
    by (simp add: startup_registry_def register_default_def register_providers_def
        default_triple_def)
  from c1 c2 c3 d show ?thesis
    by (intro conjI)
qed

text \<open>
  Witness for C3: with the complete triple, \<^verbatim>\<open>"default"\<close> is the provider built from it; with
  an empty key and the providers \<open>a\<close> and \<open>b\<close> configured, \<^verbatim>\<open>"default"\<close> and \<open>a\<close> both resolve
  to the record of \<open>a\<close>.
\<close>

theorem default_provider_registration_witness:
  "OPENAI_API_KEY config_triple = Some ''sk''
   \<and> OPENAI_BASE_URL config_triple = Some ''https://o.example/v1''
   \<and> OPENAI_MODEL config_triple = Some ''m''
   \<and> Map_get (startup_registry config_triple) ''default'' =
       Some \<lparr>name = ''default'', api_base_url = ''https://o.example/v1'', api_key = ''sk'',
             models = [''m'']\<rparr>
   \<and> OPENAI_API_KEY config_named = Some []
   \<and> Providers config_named = Some [provider_a, provider_b]
   \<and> name provider_b \<noteq> name provider_a
   \<and> Map_get (startup_registry config_named) ''default'' = Some provider_a
   \<and> Map_get (startup_registry config_named) ''a'' = Some provider_a"
proof -
  have t1: "OPENAI_API_KEY config_triple = Some ''sk''"
    and t2: "OPENAI_BASE_URL config_triple = Some ''https://o.example/v1''"
    and t3: "OPENAI_MODEL config_triple = Some ''m''"
    by (simp_all add: config_triple_def)
  have n1: "OPENAI_API_KEY config_named = Some []"
    and n2: "Providers config_named = Some [provider_a, provider_b]"
    by (simp_all add: config_named_def)
  have ab: "name provider_b \<noteq> name provider_a" and a: "name provider_a = ''a''"
    by (simp_all add: provider_a_def provider_b_def)
  note complete = default_provider_registration [THEN conjunct1, rule_format]
  note incomplete = default_provider_registration [THEN conjunct2, THEN conjunct1, rule_format,
      THEN conjunct2, THEN conjunct2, rule_format]
  have r1: "Map_get (startup_registry config_triple) ''default'' =
       Some \<lparr>name = ''default'', api_base_url = ''https://o.example/v1'', api_key = ''sk'',
             models = [''m'']\<rparr>"
    using complete [where config = config_triple and k = "''sk''"
        and u = "''https://o.example/v1''" and m = "''m''"] t1 t2 t3
    by simp
  have i: "Map_get (startup_registry config_named) (name provider_a) =
        Map_get (startup_registry config_named) ''default''
      \<and> ((\<forall>q \<in> set [provider_b]. name q \<noteq> name provider_a) \<longrightarrow>
           Map_get (startup_registry config_named) ''default'' = Some provider_a)"
    using incomplete [where config = config_named and p = provider_a and rest = "[provider_b]"]
      n1 n2
    by simp
  have r2: "Map_get (startup_registry config_named) ''default'' = Some provider_a"
    using i ab by simp
  have r3: "Map_get (startup_registry config_named) ''a'' = Some provider_a"
    using i r2 a by simp
  from t1 t2 t3 r1 n1 n2 ab r2 r3 show ?thesis by (intro conjI)
qed


text \<open>
  Claim C6. Resolving a name that is not a key of the registry throws the error
  \<^verbatim>\<open>Provider <name> not found\<close> and leaves the cache as it was; and whenever resolution
  returns a client, the name is a key of the registry and the registry holds a provider
  record for it: a missing provider is never passed on as a value.
\<close>

theorem unregistered_provider_raises:
  "(n \<notin> fst ` set reg \<longrightarrow>
      getProviderInstance e reg st n now = Inl (Error (''Provider '' @ n @ '' not found''), st))
   \<and> (\<forall>h st'. getProviderInstance e reg st n now = Inr (h, st') \<longrightarrow>
        (\<exists>p. Map_get reg n = Some p \<and> n \<in> fst ` set reg))"
proof (intro conjI impI allI)
  assume "n \<notin> fst ` set reg"
  then have "Map_get reg n = None"
    by (simp add: Map_get_def map_of_eq_None_iff)
  then show "getProviderInstance e reg st n now =
      Inl (Error (''Provider '' @ n @ '' not found''), st)"
    by (simp add: getProviderInstance_def)
next
  fix h st'
  assume r: "getProviderInstance e reg st n now = Inr (h, st')"
  show "\<exists>p. Map_get reg n = Some p \<and> n \<in> fst ` set reg"
  proof (cases "Map_get reg n")
    case None
    with r show ?thesis by (simp add: getProviderInstance_def)
  next
    case (Some p)
    then have "n \<in> fst ` set reg"
      using map_of_eq_None_iff [of reg n] by (auto simp: Map_get_def)
    with Some show ?thesis by simp
  qed
qed

text \<open>Witness for C6: the name \<open>nobody\<close> in the example registry.\<close>

theorem unregistered_provider_raises_witness:
  "''nobody'' \<notin> fst ` set (startup_registry config_named)
   \<and> getProviderInstance no_proxy (startup_registry config_named) initial_state ''nobody'' 1000 =
       Inl (Error ''Provider nobody not found'', initial_state)"
  using unregistered_provider_raises
    [of "''nobody''" "startup_registry config_named" no_proxy initial_state 1000]
  by (simp add: startup_registry_def register_default_def register_providers_def
      config_named_def default_triple_def provider_a_def provider_b_def Map_size_def
      Map_first_value_def)

section \<open>The client cache\<close>

lemma map_of_LRU_delete: "map_of (LRU_delete c k) k' = (if k' = k then None else map_of c k')"
  unfolding LRU_delete_def by (induction c) auto

lemma map_of_snoc:
  "map_of (c @ [(k, x)]) k' = (case map_of c k' of Some y \<Rightarrow> Some y | None \<Rightarrow> if k' = k then Some x else None)"
  by (simp add: map_add_def split: option.splits)

lemma keys_LRU_delete: "fst ` set (LRU_delete c k) = fst ` set c - {k}"
  unfolding LRU_delete_def by auto

lemma distinct_LRU_delete: "distinct (map fst c) \<Longrightarrow> distinct (map fst (LRU_delete c k))"
  unfolding LRU_delete_def by (simp add: distinct_map_filter)

lemma length_LRU_delete_le: "length (LRU_delete c k) \<le> length c"
  unfolding LRU_delete_def by simp

lemma length_LRU_delete_less: "k \<in> fst ` set c \<Longrightarrow> length (LRU_delete c k) < length c"
  unfolding LRU_delete_def by (auto intro: length_filter_less)

lemma set_LRU_delete: "set (LRU_delete c k) \<subseteq> set c"
  unfolding LRU_delete_def by auto

lemma LRU_delete_absent: "k \<notin> fst ` set c \<Longrightarrow> LRU_delete c k = c"
  unfolding LRU_delete_def by (induction c) auto

lemma LRU_set_absent:
  "k \<notin> fst ` set c \<Longrightarrow>
     LRU_set c k v now = (if length c = cache_max then tl c else c) @ [(k, v, now)]"
  by (simp add: LRU_set_def)

text \<open>
  The courses of a lookup of a registered name: no entry, a stale entry, a fresh entry; in
  the first two a client is constructed, unless the construction of the proxy agent throws.
\<close>

lemma getProviderInstance_absent:
  assumes "Map_get reg n = Some r" and "map_of (providerCache st) (name r) = None"
    and "getOpenAICommonOptions e = Inr agent"
  shows "getProviderInstance e reg st n t =
     Inr (new_OpenAI agent r (constructed st),
          \<lparr>providerCache =
             (if length (providerCache st) = cache_max then tl (providerCache st)
              else providerCache st) @ [(name r, new_OpenAI agent r (constructed st), t)],
           constructed = Suc (constructed st)\<rparr>)"
proof -
  have "name r \<notin> fst ` set (providerCache st)"
    using assms(2) by (simp add: map_of_eq_None_iff)
  then show ?thesis
    using assms by (simp add: getProviderInstance_def LRU_get_def LRU_set_absent Let_def)
qed

lemma getProviderInstance_absent_throws:
  assumes "Map_get reg n = Some r" and "map_of (providerCache st) (name r) = None"
    and "getOpenAICommonOptions e = Inl err"
  shows "getProviderInstance e reg st n t = Inl (err, st)"
  using assms by (simp add: getProviderInstance_def LRU_get_def)

lemma getProviderInstance_stale:
  assumes "Map_get reg n = Some r" and "map_of (providerCache st) (name r) = Some (v, s)"
    and "isStale t s" and "length (providerCache st) \<le> cache_max"
    and "getOpenAICommonOptions e = Inr agent"
  shows "getProviderInstance e reg st n t =
     Inr (new_OpenAI agent r (constructed st),
          \<lparr>providerCache =
             LRU_delete (providerCache st) (name r)
             @ [(name r, new_OpenAI agent r (constructed st), t)],
           constructed = Suc (constructed st)\<rparr>)"
proof -
  have a: "name r \<notin> fst ` set (LRU_delete (providerCache st) (name r))"
    by (simp add: keys_LRU_delete)
  have l: "length (LRU_delete (providerCache st) (name r)) < length (providerCache st)"
    using assms(2) by (intro length_LRU_delete_less) (metis map_of_eq_None_iff option.distinct(1))
  show ?thesis
    using assms a l by (simp add: getProviderInstance_def LRU_get_def LRU_set_absent Let_def)
qed

lemma getProviderInstance_stale_throws:
  assumes "Map_get reg n = Some r" and "map_of (providerCache st) (name r) = Some (v, s)"
    and "isStale t s" and "getOpenAICommonOptions e = Inl err"
  shows "getProviderInstance e reg st n t =
     Inl (err, st\<lparr>providerCache := LRU_delete (providerCache st) (name r)\<rparr>)"
  using assms by (simp add: getProviderInstance_def LRU_get_def)

lemma getProviderInstance_fresh:
  assumes "Map_get reg n = Some r" and "map_of (providerCache st) (name r) = Some (v, s)"
    and "\<not> isStale t s"
  shows "getProviderInstance e reg st n t =
     Inr (v, st\<lparr>providerCache := LRU_delete (providerCache st) (name r) @ [(name r, v, s)]\<rparr>)"
  using assms by (simp add: getProviderInstance_def LRU_get_def)

lemma cache_inv_initial: "cache_inv initial_state"
  by (simp add: cache_inv_def initial_state_def)

lemma cache_inv_step:
  assumes inv: "cache_inv st" and call: "getProviderInstance e reg st n t = Inr (h, st1)"
  shows "cache_inv st1"
proof -
  let ?c = "providerCache st"
  from call obtain r where r: "Map_get reg n = Some r"
    by (cases "Map_get reg n") (simp_all add: getProviderInstance_def)
  have d: "distinct (map fst ?c)" and l: "length ?c \<le> cache_max"
    and o: "\<forall>entry \<in> set ?c. oid (fst (snd entry)) < constructed st"
    using inv by (simp_all add: cache_inv_def)
  have onew: "oid (new_OpenAI agent r (constructed st)) = constructed st" for agent
    by (simp add: new_OpenAI_def)
  show ?thesis
  proof (cases "map_of ?c (name r)")
    case None
    then have a: "name r \<notin> fst ` set ?c" by (simp add: map_of_eq_None_iff)
    obtain agent where opts: "getOpenAICommonOptions e = Inr agent"
      using call getProviderInstance_absent_throws [OF r None, of e _ t]
      by (cases "getOpenAICommonOptions e") auto
    let ?new = "new_OpenAI agent r (constructed st)"
    have st1: "st1 = \<lparr>providerCache = (if length ?c = cache_max then tl ?c else ?c) @ [(name r, ?new, t)],
                     constructed = Suc (constructed st)\<rparr>"
      using call getProviderInstance_absent [OF r None opts, of t] by auto
    have sub: "set (tl ?c) \<subseteq> set ?c" by (cases ?c) auto
    have "distinct (map fst (tl ?c))" using d by (simp add: distinct_tl map_tl)
    moreover have "name r \<notin> fst ` set (tl ?c)" using a sub by auto
    moreover have "cache_max > 0" by (simp add: cache_max_def)
    ultimately show ?thesis
      using d l o a sub onew [of agent] unfolding st1 cache_inv_def
      by (auto simp: less_Suc_eq dest!: subsetD [OF sub])
  next
    case (Some vs)
    obtain v s where vs: "vs = (v, s)" by (cases vs)
    have k: "name r \<in> fst ` set ?c"
      using Some by (metis map_of_eq_None_iff option.distinct(1))
    have mem: "(name r, v, s) \<in> set ?c"
      using Some vs by (simp add: map_of_SomeD)
    have dl: "length (LRU_delete ?c (name r)) < length ?c"
      by (rule length_LRU_delete_less [OF k])
    have dd: "distinct (map fst (LRU_delete ?c (name r)))"
      by (rule distinct_LRU_delete [OF d])
    have da: "name r \<notin> fst ` set (LRU_delete ?c (name r))"
      by (simp add: keys_LRU_delete)
    have ds: "set (LRU_delete ?c (name r)) \<subseteq> set ?c" by (rule set_LRU_delete)
    show ?thesis
    proof (cases "isStale t s")
      case True
      obtain agent where opts: "getOpenAICommonOptions e = Inr agent"
        using call getProviderInstance_stale_throws [OF r Some [unfolded vs] True, of e]
        by (cases "getOpenAICommonOptions e") auto
      let ?new = "new_OpenAI agent r (constructed st)"
      have st1: "st1 = \<lparr>providerCache = LRU_delete ?c (name r) @ [(name r, ?new, t)],
                       constructed = Suc (constructed st)\<rparr>"
        using call getProviderInstance_stale [OF r Some [unfolded vs] True l opts] by auto
      show ?thesis
        using dl dd da l o onew [of agent] unfolding st1 cache_inv_def
        by (auto simp: less_Suc_eq dest!: subsetD [OF ds])
    next
      case False
      have st1: "st1 = st\<lparr>providerCache := LRU_delete ?c (name r) @ [(name r, v, s)]\<rparr>"
        using call getProviderInstance_fresh [OF r Some [unfolded vs] False, of e] by auto
      have "oid v < constructed st" using o mem by force
      then show ?thesis
        using dl dd da l o unfolding st1 cache_inv_def
        by (auto dest!: subsetD [OF ds])
    qed
  qed
qed

lemma getProviderInstance_throw_state:
  assumes "getProviderInstance e reg st n t = Inl (err, st1)"
  shows "st1 = st \<or> (\<exists>k. st1 = st\<lparr>providerCache := LRU_delete (providerCache st) k\<rparr>)"
  using assms
  by (auto simp: getProviderInstance_def LRU_get_def Let_def
      split: option.splits sum.splits if_splits prod.splits)

lemma cache_inv_throw:
  assumes inv: "cache_inv st" and call: "getProviderInstance e reg st n t = Inl (err, st1)"
  shows "cache_inv st1"
proof -
  have "cache_inv (st\<lparr>providerCache := LRU_delete (providerCache st) k\<rparr>)" for k
  proof -
    have "set (LRU_delete (providerCache st) k) \<subseteq> set (providerCache st)"
      by (rule set_LRU_delete)
    moreover have "length (LRU_delete (providerCache st) k) \<le> length (providerCache st)"
      by (rule length_LRU_delete_le)
    ultimately show ?thesis
      using inv distinct_LRU_delete [of "providerCache st" k]
      unfolding cache_inv_def by auto
  qed
  with inv getProviderInstance_throw_state [OF call] show ?thesis by auto
qed

lemma cache_inv_lookups: "cache_inv st \<Longrightarrow> cache_inv (lookups e reg st calls)"
proof (induction calls arbitrary: st)
  case Nil
  then show ?case by simp
next
  case (Cons c calls)
  obtain n t where c: "c = (n, t)" by (cases c)
  show ?case
  proof (cases "getProviderInstance e reg st n t")
    case (Inl res)
    obtain err st1 where res: "res = (err, st1)" by (cases res)
    have "cache_inv st1" using cache_inv_throw [OF Cons.prems Inl [unfolded res]] .
    with Cons.IH Inl res c show ?thesis by simp
  next
    case (Inr res)
    obtain h st1 where res: "res = (h, st1)" by (cases res)
    have "cache_inv st1" using cache_inv_step [OF Cons.prems Inr [unfolded res]] .
    with Cons.IH Inr res c show ?thesis by simp
  qed
qed

text \<open>
  The environment does not change while the gateway serves requests, so once a client has
  been constructed the options can be read again.
\<close>

lemma constructed_step:
  assumes "getProviderInstance e reg st n t = Inr (h, st1)"
  shows "constructed st1 = constructed st \<or> (\<exists>agent. getOpenAICommonOptions e = Inr agent)"
  using assms
  by (auto simp: getProviderInstance_def Let_def
      split: option.splits sum.splits prod.splits)

lemma constructed_throw:
  assumes "getProviderInstance e reg st n t = Inl (err, st1)"
  shows "constructed st1 = constructed st"
  using getProviderInstance_throw_state [OF assms] by auto

lemma options_lookups:
  assumes "0 < constructed st \<longrightarrow> (\<exists>agent. getOpenAICommonOptions e = Inr agent)"
  shows "0 < constructed (lookups e reg st calls) \<longrightarrow>
    (\<exists>agent. getOpenAICommonOptions e = Inr agent)"
  using assms
proof (induction calls arbitrary: st)
  case Nil
  then show ?case by simp
next
  case (Cons c calls)
  obtain n t where c: "c = (n, t)" by (cases c)
  show ?case
  proof (cases "getProviderInstance e reg st n t")
    case (Inl res)
    obtain err st1 where res: "res = (err, st1)" by (cases res)
    have "0 < constructed st1 \<longrightarrow> (\<exists>agent. getOpenAICommonOptions e = Inr agent)"
      using constructed_throw [OF Inl [unfolded res]] Cons.prems by simp
    from Cons.IH [OF this] Inl res c show ?thesis by simp
  next
    case (Inr res)
    obtain h st1 where res: "res = (h, st1)" by (cases res)
    have "0 < constructed st1 \<longrightarrow> (\<exists>agent. getOpenAICommonOptions e = Inr agent)"
      using constructed_step [OF Inr [unfolded res]] Cons.prems by auto
    from Cons.IH [OF this] Inr res c show ?thesis by simp
  qed
qed

lemma lookups_append:
  "lookups e reg st (xs @ ys) = lookups e reg (lookups e reg st xs) ys"
  by (induction e reg st xs rule: lookups.induct) (auto split: sum.splits)

lemma options_reachable:
  assumes "st = lookups e reg initial_state history"
    and "providerCache st \<noteq> []"
  shows "\<exists>agent. getOpenAICommonOptions e = Inr agent"
proof -
  have "cache_inv st"
    unfolding assms(1) by (rule cache_inv_lookups [OF cache_inv_initial])
  moreover obtain entry where "entry \<in> set (providerCache st)"
    using assms(2) by (cases "providerCache st") auto
  ultimately have "0 < constructed st"
    unfolding cache_inv_def by force
  moreover have "0 < constructed st \<longrightarrow> (\<exists>agent. getOpenAICommonOptions e = Inr agent)"
    unfolding assms(1) by (rule options_lookups) (simp add: initial_state_def)
  ultimately show ?thesis by simp
qed

lemma map_of_LRU_set: "map_of (LRU_set c k v now) k = Some (v, now)"
proof -
  have "map_of (tl c) k = None" if "k \<notin> fst ` set c"
  proof -
    have "set (tl c) \<subseteq> set c" by (cases c) auto
    with that have "k \<notin> fst ` set (tl c)" by auto
    then show ?thesis by (simp add: map_of_eq_None_iff)
  qed
  moreover have "map_of c k = None" if "k \<notin> fst ` set c"
    using that by (simp add: map_of_eq_None_iff)
  ultimately show ?thesis
    by (simp add: LRU_set_def map_of_snoc map_of_LRU_delete del: map_of_append)
qed

lemma lookup_entry:
  assumes r: "Map_get reg n = Some r" and call: "getProviderInstance e reg st n t = Inr (h, st1)"
  shows "\<exists>s. map_of (providerCache st1) (name r) = Some (h, s) \<and> \<not> isStale t s \<and>
           (map_of (providerCache st) (name r) = Some (h, s) \<and> constructed st1 = constructed st
            \<or> s = t \<and> getOpenAICommonOptions e = Inr (httpAgent h) \<and>
              h = new_OpenAI (httpAgent h) r (constructed st) \<and>
              constructed st1 = Suc (constructed st))"
proof (cases "map_of (providerCache st) (name r)")
  case None
  have "\<not> isStale t t" by (simp add: isStale_def)
  then show ?thesis
    using r call None
    by (auto simp: getProviderInstance_def LRU_get_def Let_def map_of_LRU_set new_OpenAI_def
        split: sum.splits)
next
  case (Some vs)
  obtain v s where vs: "vs = (v, s)" by (cases vs)
  show ?thesis
  proof (cases "isStale t s")
    case True
    have "\<not> isStale t t" by (simp add: isStale_def)
    then show ?thesis
      using r call Some vs True
      by (auto simp: getProviderInstance_def LRU_get_def Let_def map_of_LRU_set new_OpenAI_def
          split: sum.splits)
  next
    case False
    then show ?thesis
      using r call Some vs
      by (auto simp: getProviderInstance_def LRU_get_def map_of_snoc map_of_LRU_delete
          simp del: map_of_append)
  qed
qed

lemma lookup_hit:
  assumes "Map_get reg n = Some r" and "map_of (providerCache st) (name r) = Some (h, s)"
    and "t - s \<le> cache_ttl"
  shows "\<exists>st2. getProviderInstance e reg st n t = Inr (h, st2) \<and> constructed st2 = constructed st"
  using assms by (simp add: getProviderInstance_def LRU_get_def isStale_def)

lemma lookup_expired:
  assumes "Map_get reg n = Some r" and "map_of (providerCache st) (name r) = Some (h, s)"
    and "t - s > cache_ttl"
  shows "case getOpenAICommonOptions e of
           Inr agent \<Rightarrow>
             \<exists>st2. getProviderInstance e reg st n t =
                     Inr (new_OpenAI agent r (constructed st), st2)
                   \<and> oid (new_OpenAI agent r (constructed st)) = constructed st
                   \<and> constructed st2 = Suc (constructed st)
         | Inl err \<Rightarrow>
             getProviderInstance e reg st n t =
               Inl (err, st\<lparr>providerCache := LRU_delete (providerCache st) (name r)\<rparr>)"
  using assms
  by (simp add: getProviderInstance_def LRU_get_def isStale_def Let_def new_OpenAI_def
      split: sum.splits)

lemma example_options: "getOpenAICommonOptions no_proxy = Inr None"
  by (simp add: getOpenAICommonOptions_def no_proxy_def no_env_def truthy_def)

lemma example_bad_options: "getOpenAICommonOptions bad_proxy = Inl (TypeError ''Invalid URL'')"
  by (simp add: getOpenAICommonOptions_def new_HttpsProxyAgent_def bad_proxy_def no_env_def
      truthy_def example_url_ok_def)

lemma example_registry:
  "startup_registry config_named =
     [(''a'', provider_a), (''b'', provider_b), (''default'', provider_a)]"
  by (simp add: startup_registry_def register_default_def register_providers_def
      config_named_def default_triple_def provider_a_def provider_b_def Map_size_def
      Map_first_value_def)

lemma example_first_lookup:
  "getProviderInstance no_proxy (startup_registry config_named) initial_state ''a'' 1000 =
     Inr (client_a0, state_a0)"
  by (simp add: example_registry example_options getProviderInstance_def Map_get_def
      LRU_get_def LRU_set_def initial_state_def client_a0_def state_a0_def cache_max_def
      provider_a_def Let_def)

text \<open>
  Claim C4, as amended. Let a lookup of a registered name return a client, in any state the
  gateway can reach. The cache then holds that client under the provider's name together with
  the time \<open>s\<close> at which it was stored (the time of this call when this call constructed it,
  the time recorded earlier when it was found). Consider a later lookup of the name at a time
  \<open>t2\<close>, after any lookups in between that have left this entry in the cache (directly
  after the first lookup it is there). When \<open>t2 - s \<le> cache_ttl\<close> it returns the same client
  and constructs nothing. When \<open>t2 - s > cache_ttl\<close> it drops the entry and constructs a new
  client, whose identity differs from that of the first, and returns it: the construction
  does not throw, since the environment under which the first client was constructed has not
  changed. The time-to-live runs from the moment the client was stored and is not renewed by
  lookups.
\<close>

theorem client_reused_until_ttl_after_construction:
  assumes reg: "Map_get reg n = Some r"
    and st: "st = lookups e reg initial_state history"
    and first: "getProviderInstance e reg st n t1 = Inr (h1, st1)"
  shows "\<exists>s. map_of (providerCache st1) (name r) = Some (h1, s)
           \<and> (map_of (providerCache st) (name r) = Some (h1, s)
               \<or> s = t1 \<and> getOpenAICommonOptions e = Inr (httpAgent h1)
                 \<and> h1 = new_OpenAI (httpAgent h1) r (constructed st))
           \<and> t1 - s \<le> cache_ttl
           \<and> (\<forall>between st2 t2.
                 st2 = lookups e reg st1 between
                 \<and> map_of (providerCache st2) (name r) = Some (h1, s) \<longrightarrow>
                 (t2 - s \<le> cache_ttl \<longrightarrow>
                    (\<exists>st3. getProviderInstance e reg st2 n t2 = Inr (h1, st3)
                           \<and> constructed st3 = constructed st2))
                 \<and> (t2 - s > cache_ttl \<longrightarrow>
                      (\<exists>agent st3. getOpenAICommonOptions e = Inr agent
                         \<and> getProviderInstance e reg st2 n t2 =
                             Inr (new_OpenAI agent r (constructed st2), st3)
                         \<and> oid (new_OpenAI agent r (constructed st2)) = constructed st2
                         \<and> oid h1 < constructed st2
                         \<and> constructed st3 = Suc (constructed st2))))"
proof -
  from lookup_entry [OF reg first] obtain s where
    e1: "map_of (providerCache st1) (name r) = Some (h1, s)" and
    fresh: "\<not> isStale t1 s" and
    origin: "map_of (providerCache st) (name r) = Some (h1, s) \<and> constructed st1 = constructed st
       \<or> s = t1 \<and> getOpenAICommonOptions e = Inr (httpAgent h1) \<and>
         h1 = new_OpenAI (httpAgent h1) r (constructed st) \<and>
         constructed st1 = Suc (constructed st)"
    by blast
  have "cache_inv st"
    unfolding st by (rule cache_inv_lookups [OF cache_inv_initial])
  then have inv1: "cache_inv st1" by (rule cache_inv_step [OF _ first])
  have later: "(t2 - s \<le> cache_ttl \<longrightarrow>
                    (\<exists>st3. getProviderInstance e reg st2 n t2 = Inr (h1, st3)
                           \<and> constructed st3 = constructed st2))
                 \<and> (t2 - s > cache_ttl \<longrightarrow>
                      (\<exists>agent st3. getOpenAICommonOptions e = Inr agent
                         \<and> getProviderInstance e reg st2 n t2 =
                             Inr (new_OpenAI agent r (constructed st2), st3)
                         \<and> oid (new_OpenAI agent r (constructed st2)) = constructed st2
                         \<and> oid h1 < constructed st2
                         \<and> constructed st3 = Suc (constructed st2)))"
    if st2: "st2 = lookups e reg st1 between"
      and e2: "map_of (providerCache st2) (name r) = Some (h1, s)" for between st2 t2
  proof -
    have "cache_inv st2"
      unfolding st2 by (rule cache_inv_lookups [OF inv1])
    moreover have "(name r, h1, s) \<in> set (providerCache st2)"
      using e2 by (rule map_of_SomeD)
    ultimately have older: "oid h1 < constructed st2"
      unfolding cache_inv_def by force
    have again: "t2 - s \<le> cache_ttl \<longrightarrow>
        (\<exists>st3. getProviderInstance e reg st2 n t2 = Inr (h1, st3)
               \<and> constructed st3 = constructed st2)"
      using lookup_hit [OF reg e2] by blast
    have "lookups e reg st [(n, t1)] = st1"
      using first by simp
    then have reach: "st2 = lookups e reg initial_state (history @ [(n, t1)] @ between)"
      unfolding st2 lookups_append st [symmetric] by simp
    have "providerCache st2 \<noteq> []"
      using e2 by auto
    from options_reachable [OF reach this] obtain agent where
      agent: "getOpenAICommonOptions e = Inr agent" ..
    have expired: "\<exists>agent st3. getOpenAICommonOptions e = Inr agent
        \<and> getProviderInstance e reg st2 n t2 = Inr (new_OpenAI agent r (constructed st2), st3)
        \<and> oid (new_OpenAI agent r (constructed st2)) = constructed st2
        \<and> oid h1 < constructed st2
        \<and> constructed st3 = Suc (constructed st2)"
      if late: "t2 - s > cache_ttl"
    proof -
      from lookup_expired [OF reg e2 late, of e] obtain st3 where
        "getProviderInstance e reg st2 n t2 = Inr (new_OpenAI agent r (constructed st2), st3)"
        "oid (new_OpenAI agent r (constructed st2)) = constructed st2"
        "constructed st3 = Suc (constructed st2)"
        unfolding agent by auto
      with agent older show ?thesis by (intro exI conjI)
    qed
    show ?thesis
    proof (intro conjI impI)
      assume "t2 - s \<le> cache_ttl"
      with again show "\<exists>st3. getProviderInstance e reg st2 n t2 = Inr (h1, st3)
           \<and> constructed st3 = constructed st2" by (rule mp)
    next
      assume "t2 - s > cache_ttl"
      then show "\<exists>agent st3. getOpenAICommonOptions e = Inr agent
        \<and> getProviderInstance e reg st2 n t2 = Inr (new_OpenAI agent r (constructed st2), st3)
        \<and> oid (new_OpenAI agent r (constructed st2)) = constructed st2
        \<and> oid h1 < constructed st2
        \<and> constructed st3 = Suc (constructed st2)" by (rule expired)
    qed
  qed
  have o: "map_of (providerCache st) (name r) = Some (h1, s)
      \<or> s = t1 \<and> getOpenAICommonOptions e = Inr (httpAgent h1)
        \<and> h1 = new_OpenAI (httpAgent h1) r (constructed st)"
    using origin by blast
  have always: "\<forall>between st2 t2.
                 st2 = lookups e reg st1 between
                 \<and> map_of (providerCache st2) (name r) = Some (h1, s) \<longrightarrow>
                 (t2 - s \<le> cache_ttl \<longrightarrow>
                    (\<exists>st3. getProviderInstance e reg st2 n t2 = Inr (h1, st3)
                           \<and> constructed st3 = constructed st2))
                 \<and> (t2 - s > cache_ttl \<longrightarrow>
                      (\<exists>agent st3. getOpenAICommonOptions e = Inr agent
                         \<and> getProviderInstance e reg st2 n t2 =
                             Inr (new_OpenAI agent r (constructed st2), st3)
                         \<and> oid (new_OpenAI agent r (constructed st2)) = constructed st2
                         \<and> oid h1 < constructed st2
                         \<and> constructed st3 = Suc (constructed st2)))"
  proof (intro allI impI)
    fix between st2 t2
    assume a: "st2 = lookups e reg st1 between
                 \<and> map_of (providerCache st2) (name r) = Some (h1, s)"
    show "(t2 - s \<le> cache_ttl \<longrightarrow>
                    (\<exists>st3. getProviderInstance e reg st2 n t2 = Inr (h1, st3)
                           \<and> constructed st3 = constructed st2))
                 \<and> (t2 - s > cache_ttl \<longrightarrow>
                      (\<exists>agent st3. getOpenAICommonOptions e = Inr agent
                         \<and> getProviderInstance e reg st2 n t2 =
                             Inr (new_OpenAI agent r (constructed st2), st3)
                         \<and> oid (new_OpenAI agent r (constructed st2)) = constructed st2
                         \<and> oid h1 < constructed st2
                         \<and> constructed st3 = Suc (constructed st2)))"
      by (rule later [OF a [THEN conjunct1] a [THEN conjunct2]])
  qed
  have "t1 - s \<le> cache_ttl" using fresh by (simp add: isStale_def)
  with e1 o always show ?thesis by (intro exI [of _ s] conjI)
qed

text \<open>
  Witness for C4: the first lookup of \<open>a\<close> at time 1000 constructs a client; a lookup at
  7200000 returns it, a lookup at 7260000 constructs the next one.
\<close>

theorem client_reused_until_ttl_after_construction_witness:
  "Map_get (startup_registry config_named) ''a'' = Some provider_a
   \<and> initial_state = lookups no_proxy (startup_registry config_named) initial_state []
   \<and> getProviderInstance no_proxy (startup_registry config_named) initial_state ''a'' 1000 =
       Inr (client_a0, state_a0)
   \<and> state_a0 = lookups no_proxy (startup_registry config_named) state_a0 []
   \<and> map_of (providerCache state_a0) ''a'' = Some (client_a0, 1000)
   \<and> (\<exists>st3. getProviderInstance no_proxy (startup_registry config_named) state_a0 ''a'' 7200000 =
               Inr (client_a0, st3) \<and> constructed st3 = 1)
   \<and> (\<exists>st3. getProviderInstance no_proxy (startup_registry config_named) state_a0 ''a'' 7260000 =
               Inr (new_OpenAI None provider_a 1, st3) \<and> constructed st3 = 2)"
proof -
  have h1: "Map_get (startup_registry config_named) ''a'' = Some provider_a"
    by (simp add: example_registry Map_get_def)
  have h2: "initial_state = lookups no_proxy (startup_registry config_named) initial_state []"
    by simp
  note h3 = example_first_lookup
  have nm: "name provider_a = ''a''" by (simp add: provider_a_def)
  have b: "state_a0 = lookups no_proxy (startup_registry config_named) state_a0 []"
    by simp
  have c: "constructed state_a0 = 1" by (simp add: state_a0_def)
  have m: "map_of (providerCache state_a0) ''a'' = Some (client_a0, 1000)"
    by (simp add: state_a0_def)
  from client_reused_until_ttl_after_construction [OF h1 h2 h3, unfolded nm] obtain s where
    e: "map_of (providerCache state_a0) ''a'' = Some (client_a0, s)" and
    later: "\<forall>between st2 t2.
       st2 = lookups no_proxy (startup_registry config_named) state_a0 between
       \<and> map_of (providerCache st2) ''a'' = Some (client_a0, s) \<longrightarrow>
       (t2 - s \<le> cache_ttl \<longrightarrow>
          (\<exists>st3. getProviderInstance no_proxy (startup_registry config_named) st2 ''a'' t2 =
                   Inr (client_a0, st3) \<and> constructed st3 = constructed st2))
       \<and> (t2 - s > cache_ttl \<longrightarrow>
            (\<exists>agent st3. getOpenAICommonOptions no_proxy = Inr agent
               \<and> getProviderInstance no_proxy (startup_registry config_named) st2 ''a'' t2 =
                   Inr (new_OpenAI agent provider_a (constructed st2), st3)
               \<and> oid (new_OpenAI agent provider_a (constructed st2)) = constructed st2
               \<and> oid client_a0 < constructed st2
               \<and> constructed st3 = Suc (constructed st2)))"
    by blast
  have s: "s = 1000" using e m by simp
  have w: "(7200000::nat) - 1000 \<le> cache_ttl" and x: "(7260000::nat) - 1000 > cache_ttl"
    by (simp_all add: cache_ttl_def)
  from later [rule_format, of state_a0 "[]" 7200000] b m w
  have r1: "\<exists>st3. getProviderInstance no_proxy (startup_registry config_named) state_a0 ''a'' 7200000 =
               Inr (client_a0, st3) \<and> constructed st3 = 1"
    unfolding s c by blast
  from later [rule_format, of state_a0 "[]" 7260000] b m x
  have r2: "\<exists>st3. getProviderInstance no_proxy (startup_registry config_named) state_a0 ''a'' 7260000 =
               Inr (new_OpenAI None provider_a 1, st3) \<and> constructed st3 = 2"
    unfolding s c by (auto simp: example_options)
  from h1 h2 h3 b m r1 r2 show ?thesis by blast
qed

text \<open>
  Counterexample to C4 as stated (two calls within the idle time-to-live return the same
  client). Of three lookups of \<open>a\<close> at the times 1000, 7200000 and 7260000, the second and the
  third are one minute apart, so the client had been idle for one minute, yet the third
  lookup returns a new client. And with eleven providers, a lookup of \<open>p0\<close> one second after
  the first returns a new client when the ten other providers were looked up in between:
  the first client was dropped as the least recently used.
\<close>

theorem reuse_within_idle_ttl_counterexample:
  "handles no_proxy (startup_registry config_named) initial_state
     [(''a'', 1000), (''a'', 7200000), (''a'', 7260000)] = [Some 0, Some 0, Some 1]
   \<and> (7260000::nat) - 7200000 \<le> cache_ttl
   \<and> handles no_proxy (startup_registry config_eleven) initial_state
       (eleven_lookups @ [(''p0'', 2000)]) =
       [Some 0, Some 1, Some 2, Some 3, Some 4, Some 5, Some 6, Some 7, Some 8, Some 9, Some 10,
        Some 11]
   \<and> hd eleven_lookups = (''p0'', 1000)
   \<and> (2000::nat) - 1000 \<le> cache_ttl"
proof -
  have "handles no_proxy (startup_registry config_named) initial_state
     [(''a'', 1000), (''a'', 7200000), (''a'', 7260000)] = [Some 0, Some 0, Some 1]"
    by (simp add: example_registry example_options getProviderInstance_def Map_get_def
        LRU_get_def LRU_set_def LRU_delete_def isStale_def cache_ttl_def initial_state_def
        cache_max_def provider_a_def new_OpenAI_def Let_def)
  moreover have "handles no_proxy (startup_registry config_eleven) initial_state
       (eleven_lookups @ [(''p0'', 2000)]) =
       [Some 0, Some 1, Some 2, Some 3, Some 4, Some 5, Some 6, Some 7, Some 8, Some 9, Some 10,
        Some 11]"
    by code_simp
  moreover have "hd eleven_lookups = (''p0'', 1000)"
    by (simp add: eleven_lookups_def eleven_names_def)
  ultimately show ?thesis by (simp add: cache_ttl_def)
qed

text \<open>
  Claim C8, as amended. In every state the gateway can reach, the cache holds at most one
  entry per provider name and at most 10 entries. A lookup of a registered name
  \<^item> whose name has no entry constructs a client and appends it, after dropping the entry at
    the head of the list (the least recently used) when the cache holds 10 entries;
  \<^item> whose entry was stored more than 2 hours ago drops that entry and stores a new client,
    whether or not the old one was used in the meantime;
  \<^item> otherwise returns the stored client, moves its entry to the end of the list and keeps
    its time.
  When the construction of the client throws, which happens when the proxy URL of the
  environment is malformed, the lookup throws and nothing is stored; the cache is then
  empty, for a cache that holds a client was filled under an environment with which the
  construction succeeds. Nothing else changes the cache: an entry past its time-to-live
  stays stored until its name is looked up or the entry is dropped as the least recently
  used.
\<close>

theorem cache_one_per_name_bounded_ttl_lru:
  assumes st: "st = lookups e reg initial_state history"
  shows "distinct (map fst (providerCache st))
     \<and> length (providerCache st) \<le> 10
     \<and> (\<forall>n r t. Map_get reg n = Some r \<longrightarrow>
          getProviderInstance e reg st n t =
            (case map_of (providerCache st) (name r) of
               None \<Rightarrow>
                 (case getOpenAICommonOptions e of
                    Inl err \<Rightarrow> Inl (err, st)
                  | Inr agent \<Rightarrow>
                      Inr (new_OpenAI agent r (constructed st),
                           \<lparr>providerCache =
                              (if length (providerCache st) = 10 then tl (providerCache st)
                               else providerCache st)
                              @ [(name r, new_OpenAI agent r (constructed st), t)],
                            constructed = Suc (constructed st)\<rparr>))
             | Some (v, s) \<Rightarrow>
                 if t - s > 2 * 60 * 60 * 1000 then
                   (case getOpenAICommonOptions e of
                      Inl err \<Rightarrow>
                        Inl (err, st\<lparr>providerCache :=
                                       LRU_delete (providerCache st) (name r)\<rparr>)
                    | Inr agent \<Rightarrow>
                        Inr (new_OpenAI agent r (constructed st),
                             \<lparr>providerCache =
                                LRU_delete (providerCache st) (name r)
                                @ [(name r, new_OpenAI agent r (constructed st), t)],
                              constructed = Suc (constructed st)\<rparr>))
                 else
                   Inr (v, st\<lparr>providerCache :=
                                LRU_delete (providerCache st) (name r) @ [(name r, v, s)]\<rparr>)))
     \<and> (providerCache st \<noteq> [] \<longrightarrow> (\<exists>agent. getOpenAICommonOptions e = Inr agent))"
proof -
  have inv: "cache_inv st"
    unfolding st by (rule cache_inv_lookups [OF cache_inv_initial])
  then have d: "distinct (map fst (providerCache st))"
    and l: "length (providerCache st) \<le> cache_max"
    by (simp_all add: cache_inv_def)
  have step: "getProviderInstance e reg st n t =
            (case map_of (providerCache st) (name r) of
               None \<Rightarrow>
                 (case getOpenAICommonOptions e of
                    Inl err \<Rightarrow> Inl (err, st)
                  | Inr agent \<Rightarrow>
                      Inr (new_OpenAI agent r (constructed st),
                           \<lparr>providerCache =
                              (if length (providerCache st) = 10 then tl (providerCache st)
                               else providerCache st)
                              @ [(name r, new_OpenAI agent r (constructed st), t)],
                            constructed = Suc (constructed st)\<rparr>))
             | Some (v, s) \<Rightarrow>
                 if t - s > 2 * 60 * 60 * 1000 then
                   (case getOpenAICommonOptions e of
                      Inl err \<Rightarrow>
                        Inl (err, st\<lparr>providerCache :=
                                       LRU_delete (providerCache st) (name r)\<rparr>)
                    | Inr agent \<Rightarrow>
                        Inr (new_OpenAI agent r (constructed st),
                             \<lparr>providerCache =
                                LRU_delete (providerCache st) (name r)
                                @ [(name r, new_OpenAI agent r (constructed st), t)],
                              constructed = Suc (constructed st)\<rparr>))
                 else
                   Inr (v, st\<lparr>providerCache :=
                                LRU_delete (providerCache st) (name r) @ [(name r, v, s)]\<rparr>))"
    if r: "Map_get reg n = Some r" for n r t
  proof (cases "map_of (providerCache st) (name r)")
    case None
    show ?thesis
    proof (cases "getOpenAICommonOptions e")
      case (Inl err)
      then show ?thesis
        using getProviderInstance_absent_throws [OF r None Inl, of t] None by simp
    next
      case (Inr agent)
      then show ?thesis
        using getProviderInstance_absent [OF r None Inr, of t] None by (simp add: cache_max_def)
    qed
  next
    case (Some vs)
    obtain v s where vs: "vs = (v, s)" by (cases vs)
    show ?thesis
    proof (cases "isStale t s")
      case True
      then have late: "t - s > 2 * 60 * 60 * 1000" by (simp add: isStale_def cache_ttl_def)
      show ?thesis
      proof (cases "getOpenAICommonOptions e")
        case (Inl err)
        then show ?thesis
          using getProviderInstance_stale_throws [OF r Some [unfolded vs] True Inl] Some vs late
          by simp
      next
        case (Inr agent)
        then show ?thesis
          using getProviderInstance_stale [OF r Some [unfolded vs] True l Inr] Some vs late
          by simp
      qed
    next
      case False
      then have "\<not> t - s > 2 * 60 * 60 * 1000" by (simp add: isStale_def cache_ttl_def)
      then show ?thesis
        using getProviderInstance_fresh [OF r Some [unfolded vs] False, of e] Some vs by simp
    qed
  qed
  have filled: "providerCache st \<noteq> [] \<longrightarrow> (\<exists>agent. getOpenAICommonOptions e = Inr agent)"
    using options_reachable [OF st] by blast
  from d l step filled show ?thesis by (simp add: cache_max_def)
qed

lemma state_ten_facts:
  "map fst (providerCache state_ten) = butlast eleven_names"
  "length (providerCache state_ten) = 10"
  "constructed state_ten = 10"
  "map_of (providerCache state_ten) ''p10'' = None"
  "Map_get (startup_registry config_eleven) ''p10'' = Some (numbered ''p10'')"
  by code_simp+

text \<open>
  Witness for C8: in the state after one lookup of \<open>a\<close>, a lookup of \<open>b\<close> appends a second
  entry, and a lookup of \<open>a\<close> at 7260000 replaces the entry of \<open>a\<close>; in the state after
  lookups of ten providers the cache is full, and a lookup of an eleventh drops the entry at
  the head of the list; with a malformed proxy URL, the lookup throws and stores nothing;
  the cache after the lookup of \<open>a\<close> is not empty, and the options can be read.
\<close>

theorem cache_one_per_name_bounded_ttl_lru_witness:
  "state_a0 = lookups no_proxy (startup_registry config_named) initial_state [(''a'', 1000)]
   \<and> distinct (map fst (providerCache state_a0))
   \<and> length (providerCache state_a0) \<le> 10
   \<and> Map_get (startup_registry config_named) ''b'' = Some provider_b
   \<and> getProviderInstance no_proxy (startup_registry config_named) state_a0 ''b'' 1005 =
       Inr (new_OpenAI None provider_b 1,
            \<lparr>providerCache = [(''a'', client_a0, 1000), (''b'', new_OpenAI None provider_b 1, 1005)],
             constructed = 2\<rparr>)
   \<and> Map_get (startup_registry config_named) ''a'' = Some provider_a
   \<and> getProviderInstance no_proxy (startup_registry config_named) state_a0 ''a'' 7260000 =
       Inr (new_OpenAI None provider_a 1,
            \<lparr>providerCache = [(''a'', new_OpenAI None provider_a 1, 7260000)],
             constructed = 2\<rparr>)
   \<and> state_ten =
       lookups no_proxy (startup_registry config_eleven) initial_state (butlast eleven_lookups)
   \<and> length (providerCache state_ten) = 10
   \<and> Map_get (startup_registry config_eleven) ''p10'' = Some (numbered ''p10'')
   \<and> getProviderInstance no_proxy (startup_registry config_eleven) state_ten ''p10'' 1010 =
       Inr (new_OpenAI None (numbered ''p10'') 10,
            \<lparr>providerCache =
               tl (providerCache state_ten)
               @ [(''p10'', new_OpenAI None (numbered ''p10'') 10, 1010)],
             constructed = 11\<rparr>)
   \<and> initial_state = lookups bad_proxy (startup_registry config_named) initial_state []
   \<and> getProviderInstance bad_proxy (startup_registry config_named) initial_state ''a'' 1000 =
       Inl (TypeError ''Invalid URL'', initial_state)
   \<and> providerCache state_a0 \<noteq> []
   \<and> (\<exists>agent. getOpenAICommonOptions no_proxy = Inr agent)"
proof -
  have h: "state_a0 = lookups no_proxy (startup_registry config_named) initial_state [(''a'', 1000)]"
    by (simp add: example_first_lookup)
  have b: "Map_get (startup_registry config_named) ''b'' = Some provider_b"
    and a: "Map_get (startup_registry config_named) ''a'' = Some provider_a"
    by (simp_all add: example_registry Map_get_def)
  note th = cache_one_per_name_bounded_ttl_lru [OF h]
  have r1: "getProviderInstance no_proxy (startup_registry config_named) state_a0 ''b'' 1005 =
       Inr (new_OpenAI None provider_b 1,
            \<lparr>providerCache = [(''a'', client_a0, 1000), (''b'', new_OpenAI None provider_b 1, 1005)],
             constructed = 2\<rparr>)"
    using th b by (simp add: state_a0_def provider_b_def example_options)
  have r2: "getProviderInstance no_proxy (startup_registry config_named) state_a0 ''a'' 7260000 =
       Inr (new_OpenAI None provider_a 1,
            \<lparr>providerCache = [(''a'', new_OpenAI None provider_a 1, 7260000)],
             constructed = 2\<rparr>)"
    using th a by (simp add: state_a0_def provider_a_def LRU_delete_def example_options)
  have nm: "name (numbered ''p10'') = ''p10''" by (simp add: numbered_def)
  note th10 = cache_one_per_name_bounded_ttl_lru [OF state_ten_def]
  have r3: "getProviderInstance no_proxy (startup_registry config_eleven) state_ten ''p10'' 1010 =
       Inr (new_OpenAI None (numbered ''p10'') 10,
            \<lparr>providerCache =
               tl (providerCache state_ten)
               @ [(''p10'', new_OpenAI None (numbered ''p10'') 10, 1010)],
             constructed = 11\<rparr>)"
    using th10 state_ten_facts by (simp add: nm example_options)
  have hb: "initial_state = lookups bad_proxy (startup_registry config_named) initial_state []"
    by simp
  note thb = cache_one_per_name_bounded_ttl_lru [OF hb]
  have r4: "getProviderInstance bad_proxy (startup_registry config_named) initial_state ''a'' 1000 =
       Inl (TypeError ''Invalid URL'', initial_state)"
    using thb a by (simp add: initial_state_def provider_a_def example_bad_options)
  have ne: "providerCache state_a0 \<noteq> []"
    by (simp add: state_a0_def)
  have r5: "\<exists>agent. getOpenAICommonOptions no_proxy = Inr agent"
    using th ne by blast
  have r0: "distinct (map fst (providerCache state_a0))"
    "length (providerCache state_a0) \<le> 10"
    using th by blast+
  have ten: "length (providerCache state_ten) = 10"
    "Map_get (startup_registry config_eleven) ''p10'' = Some (numbered ''p10'')"
    by (rule state_ten_facts)+
  from h r0 b r1 a r2 state_ten_def ten r3 hb r4 ne r5 show ?thesis by (intro conjI)
qed

text \<open>
  Counterexample to C8 as stated (a handle is evicted after a fixed idle time-to-live): a
  client looked up at the times 1000, 3601000 and 7200000 is never idle for more than an
  hour, and is nevertheless replaced by the lookup one minute later.
\<close>

theorem idle_handle_eviction_counterexample:
  "handles no_proxy (startup_registry config_named) initial_state
     [(''a'', 1000), (''a'', 3601000), (''a'', 7200000), (''a'', 7260000)] =
     [Some 0, Some 0, Some 0, Some 1]"
  by (simp add: example_registry example_options getProviderInstance_def Map_get_def
      LRU_get_def LRU_set_def LRU_delete_def isStale_def cache_ttl_def initial_state_def
      cache_max_def provider_a_def new_OpenAI_def Let_def)

text \<open>
  Claim C9. When the triple is incomplete and at least one provider is configured, a lookup
  of \<^verbatim>\<open>"default"\<close> and a lookup of the first configured provider's name are the same
  operation on every state and at every time: both find the same record and use its name as
  the cache key. So the client that a lookup of \<^verbatim>\<open>"default"\<close> returns is stored under the
  provider's own name, and a lookup of that name at the same time, or at any time within the
  time-to-live of the entry, returns that same client without constructing one.
\<close>

theorem default_alias_shares_cached_client:
  assumes triple: "default_triple config = None" and ps: "Providers config = Some (p # rest)"
  shows "getProviderInstance e (startup_registry config) st ''default'' t =
           getProviderInstance e (startup_registry config) st (name p) t
     \<and> (\<forall>h st1. getProviderInstance e (startup_registry config) st ''default'' t = Inr (h, st1) \<longrightarrow>
          (\<exists>s. map_of (providerCache st1) (name p) = Some (h, s)
             \<and> (\<forall>t2. t2 - s \<le> cache_ttl \<longrightarrow>
                   (\<exists>st2. getProviderInstance e (startup_registry config) st1 (name p) t2 =
                            Inr (h, st2) \<and> constructed st2 = constructed st1))
             \<and> (\<exists>st2. getProviderInstance e (startup_registry config) st1 (name p) t =
                            Inr (h, st2) \<and> constructed st2 = constructed st1)))"
proof -
  let ?reg = "startup_registry config"
  obtain r where fr: "first_registered (p # rest) = Some r"
    by (simp add: first_registered_def)
  then have nm: "name r = name p" by (rule first_registered_name)
  have own: "Map_get ?reg (name p) = Some r"
    using startup_alias_own_name [OF triple ps] fr by simp
  have dflt: "Map_get ?reg ''default'' = Some r"
    using startup_default [of config] triple ps fr by simp
  have same: "getProviderInstance e ?reg st ''default'' t = getProviderInstance e ?reg st (name p) t"
    for st t
    by (simp add: getProviderInstance_def own dflt)
  have shared: "\<exists>s. map_of (providerCache st1) (name p) = Some (h, s)
             \<and> (\<forall>t2. t2 - s \<le> cache_ttl \<longrightarrow>
                   (\<exists>st2. getProviderInstance e ?reg st1 (name p) t2 = Inr (h, st2)
                          \<and> constructed st2 = constructed st1))
             \<and> (\<exists>st2. getProviderInstance e ?reg st1 (name p) t = Inr (h, st2)
                          \<and> constructed st2 = constructed st1)"
    if call: "getProviderInstance e ?reg st ''default'' t = Inr (h, st1)" for h st1
  proof -
    from lookup_entry [OF dflt call] obtain s where
      e1: "map_of (providerCache st1) (name r) = Some (h, s)" and fresh: "\<not> isStale t s"
      by blast
    have now: "t - s \<le> cache_ttl" using fresh by (simp add: isStale_def)
    have "\<forall>t2. t2 - s \<le> cache_ttl \<longrightarrow>
        (\<exists>st2. getProviderInstance e ?reg st1 (name p) t2 = Inr (h, st2)
               \<and> constructed st2 = constructed st1)"
      using lookup_hit [OF own e1] by blast
    with e1 now show ?thesis unfolding nm by blast
  qed
  from same shared show ?thesis by blast
qed

text \<open>
  Witness for C9: in the example configuration, \<^verbatim>\<open>"default"\<close> and \<open>a\<close> give the same client.
\<close>

theorem default_alias_shares_cached_client_witness:
  "default_triple config_named = None
   \<and> Providers config_named = Some [provider_a, provider_b]
   \<and> getProviderInstance no_proxy (startup_registry config_named) initial_state ''default'' 1000 =
       Inr (client_a0, state_a0)
   \<and> getProviderInstance no_proxy (startup_registry config_named) initial_state ''a'' 1000 =
       Inr (client_a0, state_a0)
   \<and> (\<exists>st2. getProviderInstance no_proxy (startup_registry config_named) state_a0 ''a'' 1005 =
              Inr (client_a0, st2) \<and> constructed st2 = 1)"
proof -
  have h1: "default_triple config_named = None"
    by (simp add: default_triple_def config_named_def)
  have h2: "Providers config_named = Some (provider_a # [provider_b])"
    by (simp add: config_named_def)
  have nm: "name provider_a = ''a''" by (simp add: provider_a_def)
  note th = default_alias_shares_cached_client [OF h1 h2, of no_proxy initial_state 1000, unfolded nm]
  have d: "getProviderInstance no_proxy (startup_registry config_named) initial_state ''default'' 1000 =
       Inr (client_a0, state_a0)"
    using th example_first_lookup by simp
  from th d obtain s where
    e: "map_of (providerCache state_a0) ''a'' = Some (client_a0, s)" and
    again: "\<forall>t2. t2 - s \<le> cache_ttl \<longrightarrow>
      (\<exists>st2. getProviderInstance no_proxy (startup_registry config_named) state_a0 ''a'' t2 =
               Inr (client_a0, st2) \<and> constructed st2 = constructed state_a0)"
    by blast
  have s: "s = 1000" using e by (simp add: state_a0_def)
  have "(1005::nat) - s \<le> cache_ttl" by (simp add: s cache_ttl_def)
  with again have "\<exists>st2. getProviderInstance no_proxy (startup_registry config_named) state_a0 ''a'' 1005 =
               Inr (client_a0, st2) \<and> constructed st2 = constructed state_a0"
    by blast
  with h1 h2 d example_first_lookup show ?thesis by (simp add: state_a0_def)
qed

section \<open>The middleware pipeline and the handler\<close>

lemma example_default_lookup:
  "getProviderInstance no_proxy (startup_registry config_named) initial_state ''default'' 1000 =
     Inr (client_a0, state_a0)"
  by (simp add: example_registry example_options getProviderInstance_def Map_get_def
      LRU_get_def LRU_set_def initial_state_def client_a0_def state_a0_def cache_max_def
      provider_a_def Let_def)

lemma example_triple_registry:
  "startup_registry config_triple =
     [(''default'', \<lparr>name = ''default'', api_base_url = ''https://o.example/v1'',
                      api_key = ''sk'', models = [''m'']\<rparr>)]"
  by (simp add: startup_registry_def register_default_def register_providers_def
      config_triple_def default_triple_def)

text \<open>
  Claim C7. For every configuration \<^verbatim>\<open>run\<close> makes the same four calls of
  \<^verbatim>\<open>server.useMiddleware\<close> in the same order: attach configuration, rewrite body, route,
  format request; on a server that records what is installed, the pipeline has length 4
  whatever the configuration. When \<^verbatim>\<open>Router.background\<close>, \<^verbatim>\<open>Router.think\<close> and
  \<^verbatim>\<open>Router.longContext\<close> are all set (non-empty), the third stage is the router. When the
  \<^verbatim>\<open>Router\<close> section is absent or one of the three is unset or empty, the third stage is not
  left out: it is the arrow function that assigns the provider \<^verbatim>\<open>"default"\<close> and the
  configured \<^verbatim>\<open>OPENAI_MODEL\<close> to every request and changes nothing else.
\<close>

theorem pipeline_shape:
  "install_middlewares useMiddleware config server =
     foldl useMiddleware server
       [AttachConfig, RewriteBody,
        if router_rules_present config then RouterMiddleware else DefaultRoute,
        FormatRequest]
   \<and> install_middlewares useMiddleware config server =
       foldl useMiddleware server (install_middlewares record_middleware config [])
   \<and> length (install_middlewares record_middleware config []) = 4
   \<and> install_middlewares record_middleware config [] ! 0 = AttachConfig
   \<and> install_middlewares record_middleware config [] ! 1 = RewriteBody
   \<and> install_middlewares record_middleware config [] ! 3 = FormatRequest
   \<and> (\<forall>r b t l. Router config = Some r \<and> background r = Some b \<and> b \<noteq> []
         \<and> think r = Some t \<and> t \<noteq> [] \<and> longContext r = Some l \<and> l \<noteq> [] \<longrightarrow>
         install_middlewares record_middleware config [] =
           [AttachConfig, RewriteBody, RouterMiddleware, FormatRequest])
   \<and> (Router config = None
       \<or> (\<exists>r. Router config = Some r
              \<and> (background r = None \<or> background r = Some [] \<or> think r = None
                  \<or> think r = Some [] \<or> longContext r = None \<or> longContext r = Some [])) \<longrightarrow>
         install_middlewares record_middleware config [] =
           [AttachConfig, RewriteBody, DefaultRoute, FormatRequest]
         \<and> (\<exists>f :: 'b Request \<Rightarrow> 'b Request.
               arrow_function config (install_middlewares record_middleware config [] ! 2) =
                 Some f
               \<and> (\<forall>req. f req =
                     req\<lparr>provider := Some ''default'',
                         body := (body req)\<lparr>model := OPENAI_MODEL config\<rparr>\<rparr>)))"
proof -
  let ?pipeline = "install_middlewares record_middleware config []"
  have shape: "?pipeline =
      [AttachConfig, RewriteBody,
       if router_rules_present config then RouterMiddleware else DefaultRoute, FormatRequest]"
    by (simp add: install_middlewares_def record_middleware_def)
  have c1: "install_middlewares useMiddleware config server =
     foldl useMiddleware server
       [AttachConfig, RewriteBody,
        if router_rules_present config then RouterMiddleware else DefaultRoute,
        FormatRequest]"
    by (simp add: install_middlewares_def)
  have c2: "install_middlewares useMiddleware config server =
       foldl useMiddleware server ?pipeline"
    unfolding shape by (rule c1)
  have c3: "length ?pipeline = 4" and c4: "?pipeline ! 0 = AttachConfig"
    and c5: "?pipeline ! 1 = RewriteBody" and c6: "?pipeline ! 3 = FormatRequest"
    unfolding shape by simp_all
  have c7: "\<forall>r b t l. Router config = Some r \<and> background r = Some b \<and> b \<noteq> []
         \<and> think r = Some t \<and> t \<noteq> [] \<and> longContext r = Some l \<and> l \<noteq> [] \<longrightarrow>
         ?pipeline = [AttachConfig, RewriteBody, RouterMiddleware, FormatRequest]"
  proof (intro allI impI)
    fix r b t l
    assume "Router config = Some r \<and> background r = Some b \<and> b \<noteq> []
         \<and> think r = Some t \<and> t \<noteq> [] \<and> longContext r = Some l \<and> l \<noteq> []"
    then have "router_rules_present config"
      by (simp add: router_rules_present_def truthy_def)
    then show "?pipeline = [AttachConfig, RewriteBody, RouterMiddleware, FormatRequest]"
      unfolding shape by simp
  qed
  have c8: "Router config = None
       \<or> (\<exists>r. Router config = Some r
              \<and> (background r = None \<or> background r = Some [] \<or> think r = None
                  \<or> think r = Some [] \<or> longContext r = None \<or> longContext r = Some [])) \<longrightarrow>
         ?pipeline = [AttachConfig, RewriteBody, DefaultRoute, FormatRequest]
         \<and> (\<exists>f :: 'b Request \<Rightarrow> 'b Request.
               arrow_function config (?pipeline ! 2) = Some f
               \<and> (\<forall>req. f req =
                     req\<lparr>provider := Some ''default'',
                         body := (body req)\<lparr>model := OPENAI_MODEL config\<rparr>\<rparr>))"
  proof
    assume "Router config = None
       \<or> (\<exists>r. Router config = Some r
              \<and> (background r = None \<or> background r = Some [] \<or> think r = None
                  \<or> think r = Some [] \<or> longContext r = None \<or> longContext r = Some []))"
    then have "\<not> router_rules_present config"
      by (auto simp: router_rules_present_def truthy_def)
    then have p: "?pipeline = [AttachConfig, RewriteBody, DefaultRoute, FormatRequest]"
      unfolding shape by simp
    have "arrow_function config (?pipeline ! 2) = Some (default_route config)"
      unfolding p by simp
    moreover have "\<forall>req :: 'b Request. default_route config req =
                     req\<lparr>provider := Some ''default'',
                         body := (body req)\<lparr>model := OPENAI_MODEL config\<rparr>\<rparr>"
      by (simp add: default_route_def)
    ultimately show "?pipeline = [AttachConfig, RewriteBody, DefaultRoute, FormatRequest]
         \<and> (\<exists>f :: 'b Request \<Rightarrow> 'b Request.
               arrow_function config (?pipeline ! 2) = Some f
               \<and> (\<forall>req. f req =
                     req\<lparr>provider := Some ''default'',
                         body := (body req)\<lparr>model := OPENAI_MODEL config\<rparr>\<rparr>))"
      using p by blast
  qed
  from c1 c2 c3 c4 c5 c6 c7 c8 show ?thesis
    by (intro conjI)
qed

text \<open>
  Witness for C7: a configuration with all three rules, one with no \<^verbatim>\<open>Router\<close> section and
  one whose \<^verbatim>\<open>think\<close> rule is empty and whose \<^verbatim>\<open>longContext\<close> rule is unset; in the last,
  the third stage gives a request that names another provider the provider \<^verbatim>\<open>"default"\<close>
  and the model \<open>m\<close>.
\<close>

theorem pipeline_shape_witness:
  "Router config_routed =
     Some \<lparr>background = Some ''b:b1'', think = Some ''a:a2'', longContext = Some ''a:a1''\<rparr>
   \<and> install_middlewares record_middleware config_routed [] =
       [AttachConfig, RewriteBody, RouterMiddleware, FormatRequest]
   \<and> Router config_triple = None
   \<and> install_middlewares record_middleware config_triple [] =
       [AttachConfig, RewriteBody, DefaultRoute, FormatRequest]
   \<and> Router config_partial =
       Some \<lparr>background = Some ''b:b1'', think = Some [], longContext = None\<rparr>
   \<and> install_middlewares record_middleware config_partial [] =
       [AttachConfig, RewriteBody, DefaultRoute, FormatRequest]
   \<and> map_option (\<lambda>f. f background_request)
       (arrow_function config_partial (install_middlewares record_middleware config_partial [] ! 2)) =
       Some \<lparr>provider = Some ''default'',
             body = \<lparr>model = Some ''m'', params = ''background, thinking''\<rparr>,
             req_config = None\<rparr>"
proof -
  have r: "Router config_routed =
     Some \<lparr>background = Some ''b:b1'', think = Some ''a:a2'', longContext = Some ''a:a1''\<rparr>"
    by (simp add: config_routed_def)
  have t: "Router config_triple = None"
    by (simp add: config_triple_def)
  have p: "Router config_partial =
       Some \<lparr>background = Some ''b:b1'', think = Some [], longContext = None\<rparr>"
    and m: "OPENAI_MODEL config_partial = Some ''m''"
    by (simp_all add: config_partial_def)
  note complete = pipeline_shape [THEN conjunct2, THEN conjunct2, THEN conjunct2,
      THEN conjunct2, THEN conjunct2, THEN conjunct2, THEN conjunct1, rule_format]
  note incomplete = pipeline_shape [THEN conjunct2, THEN conjunct2, THEN conjunct2,
      THEN conjunct2, THEN conjunct2, THEN conjunct2, THEN conjunct2, rule_format]
  have r1: "install_middlewares record_middleware config_routed [] =
       [AttachConfig, RewriteBody, RouterMiddleware, FormatRequest]"
    using complete [where config = config_routed and b = "''b:b1''" and t = "''a:a2''"
        and l = "''a:a1''"
        and r = "\<lparr>background = Some ''b:b1'', think = Some ''a:a2'', longContext = Some ''a:a1''\<rparr>"]
      r by simp
  have r2: "install_middlewares record_middleware config_triple [] =
       [AttachConfig, RewriteBody, DefaultRoute, FormatRequest]"
    using incomplete [of config_triple] t by blast
  have "install_middlewares record_middleware config_partial [] =
       [AttachConfig, RewriteBody, DefaultRoute, FormatRequest]
     \<and> (\<exists>f :: string Request \<Rightarrow> string Request.
           arrow_function config_partial
             (install_middlewares record_middleware config_partial [] ! 2) = Some f
           \<and> (\<forall>req. f req =
                 req\<lparr>provider := Some ''default'',
                     body := (body req)\<lparr>model := OPENAI_MODEL config_partial\<rparr>\<rparr>))"
    by (rule incomplete [of config_partial]) (simp add: p)
  then obtain f :: "string Request \<Rightarrow> string Request" where
    r3: "install_middlewares record_middleware config_partial [] =
       [AttachConfig, RewriteBody, DefaultRoute, FormatRequest]"
    and f: "arrow_function config_partial
          (install_middlewares record_middleware config_partial [] ! 2) = Some f"
    and fr: "\<forall>req. f req =
               req\<lparr>provider := Some ''default'',
                   body := (body req)\<lparr>model := OPENAI_MODEL config_partial\<rparr>\<rparr>"
    by blast
  have r4: "map_option (\<lambda>f. f background_request)
       (arrow_function config_partial (install_middlewares record_middleware config_partial [] ! 2)) =
       Some \<lparr>provider = Some ''default'',
             body = \<lparr>model = Some ''m'', params = ''background, thinking''\<rparr>,
             req_config = None\<rparr>"
    unfolding f by (simp add: fr m background_request_def)
  from r t p r1 r2 r3 r4 show ?thesis by (intro conjI)
qed


text \<open>
  Claim C2, as amended. When the three routing rules are not all set, the routing stage is
  the default middleware, which for every request (whatever its provider hint, model and
  other fields) sets the provider to \<^verbatim>\<open>"default"\<close> and the model to the configured
  \<^verbatim>\<open>OPENAI_MODEL\<close>, and changes nothing else. When the triple is complete, that model is the
  sole model of the provider registered as \<^verbatim>\<open>"default"\<close>.
\<close>

theorem default_route_assigns_default:
  assumes "\<not> router_rules_present config"
  shows "install_middlewares record_middleware config [] =
           [AttachConfig, RewriteBody, DefaultRoute, FormatRequest]
     \<and> provider (default_route config req) = Some ''default''
     \<and> model (body (default_route config req)) = OPENAI_MODEL config
     \<and> params (body (default_route config req)) = params (body req)
     \<and> req_config (default_route config req) = req_config req
     \<and> (\<forall>k u m. default_triple config = Some (k, u, m) \<longrightarrow>
           Map_get (startup_registry config) ''default'' =
             Some \<lparr>name = ''default'', api_base_url = u, api_key = k, models = [m]\<rparr>
           \<and> model (body (default_route config req)) = Some m)"
proof -
  have "OPENAI_MODEL config = Some m" if "default_triple config = Some (k, u, m)" for k u m
    using that by (auto simp: default_triple_def split: option.splits if_splits)
  moreover have "Map_get (startup_registry config) ''default'' =
             Some \<lparr>name = ''default'', api_base_url = u, api_key = k, models = [m]\<rparr>"
    if "default_triple config = Some (k, u, m)" for k u m
    using that startup_default [of config] by simp
  ultimately show ?thesis
    using assms by (simp add: install_middlewares_def record_middleware_def default_route_def)
qed

text \<open>
  Witness for C2: the configuration with the complete triple and no router, and a request
  that names another provider and carries flags.
\<close>

theorem default_route_assigns_default_witness:
  "\<not> router_rules_present config_triple
   \<and> default_triple config_triple = Some (''sk'', ''https://o.example/v1'', ''m'')
   \<and> provider (default_route config_triple background_request) = Some ''default''
   \<and> model (body (default_route config_triple background_request)) = Some ''m''
   \<and> Map_get (startup_registry config_triple) ''default'' =
       Some \<lparr>name = ''default'', api_base_url = ''https://o.example/v1'', api_key = ''sk'',
             models = [''m'']\<rparr>"
proof -
  have h: "\<not> router_rules_present config_triple"
    by (simp add: router_rules_present_def config_triple_def)
  have t: "default_triple config_triple = Some (''sk'', ''https://o.example/v1'', ''m'')"
    by (simp add: default_triple_def config_triple_def)
  have m: "OPENAI_MODEL config_triple = Some ''m''"
    by (simp add: config_triple_def)
  show ?thesis
    using h t m default_route_assigns_default [OF h, of background_request] by simp
qed

text \<open>
  Counterexample to C2 as stated (the model is the default provider's sole configured model):
  with the triple incomplete, \<^verbatim>\<open>"default"\<close> is the provider \<open>a\<close>, whose models are \<open>a1\<close> and
  \<open>a2\<close>, and the request's model is set to the configured \<^verbatim>\<open>OPENAI_MODEL\<close> \<open>m\<close>, which is
  not a model of \<open>a\<close>.
\<close>

theorem default_model_of_alias_counterexample:
  "\<not> router_rules_present config_named
   \<and> Map_get (startup_registry config_named) ''default'' = Some provider_a
   \<and> models provider_a = [''a1'', ''a2'']
   \<and> provider (default_route config_named background_request) = Some ''default''
   \<and> model (body (default_route config_named background_request)) = Some ''m''
   \<and> ''m'' \<notin> set (models provider_a)"
proof -
  have "\<not> router_rules_present config_named"
    and "model (body (default_route config_named background_request)) = Some ''m''"
    and "provider (default_route config_named background_request) = Some ''default''"
    by (simp_all add: router_rules_present_def config_named_def default_route_def)
  moreover have "Map_get (startup_registry config_named) ''default'' = Some provider_a"
    by (simp add: example_registry Map_get_def)
  moreover have "models provider_a = [''a1'', ''a2'']"
    by (simp add: provider_a_def)
  ultimately show ?thesis by simp
qed

text \<open>
  Claim C1, as amended. When the provider name of a request is not registered, or when the
  backend call fails, the handler catches the error, prints it with \<^verbatim>\<open>console.error\<close> and
  writes nothing to the response. An error thrown while the response is streamed is printed
  in the same way, after what was already written. The handler always returns: no exception
  leaves it, whatever the request, the backend and the stream writer do.
\<close>

theorem handler_logs_error_without_reply:
  "(provider_or_default (provider req) \<notin> fst ` set reg \<longrightarrow>
      messages_handler e reg create streamOpenAIResponse st req now =
        Inr \<lparr>written = [],
             console = [ConsoleError ''Error in OpenAI API call:''
                          (Error (''Provider '' @ provider_or_default (provider req)
                                  @ '' not found''))],
             state_after = st\<rparr>)
   \<and> (\<forall>client st' err.
         getProviderInstance e reg st (provider_or_default (provider req)) now = Inr (client, st')
         \<longrightarrow> create client (body req) = Inl err
         \<longrightarrow> messages_handler e reg create streamOpenAIResponse st req now =
               Inr \<lparr>written = [], console = [ConsoleError ''Error in OpenAI API call:'' err],
                    state_after = st'\<rparr>)
   \<and> (\<forall>client st' completion ws err.
         getProviderInstance e reg st (provider_or_default (provider req)) now = Inr (client, st')
         \<longrightarrow> create client (body req) = Inr completion
         \<longrightarrow> streamOpenAIResponse completion (model (body req)) (body req) = (ws, Some err)
         \<longrightarrow> messages_handler e reg create streamOpenAIResponse st req now =
               Inr \<lparr>written = ws, console = [ConsoleError ''Error in OpenAI API call:'' err],
                    state_after = st'\<rparr>)
   \<and> (\<exists>res. messages_handler e reg create streamOpenAIResponse st req now = Inr res)"
proof (intro conjI impI allI)
  assume "provider_or_default (provider req) \<notin> fst ` set reg"
  then have "Map_get reg (provider_or_default (provider req)) = None"
    by (simp add: Map_get_def map_of_eq_None_iff)
  then show "messages_handler e reg create streamOpenAIResponse st req now =
        Inr \<lparr>written = [],
             console = [ConsoleError ''Error in OpenAI API call:''
                          (Error (''Provider '' @ provider_or_default (provider req)
                                  @ '' not found''))],
             state_after = st\<rparr>"
    by (simp add: messages_handler_def getProviderInstance_def)
next
  fix client st' err
  assume "getProviderInstance e reg st (provider_or_default (provider req)) now = Inr (client, st')"
    and "create client (body req) = Inl err"
  then show "messages_handler e reg create streamOpenAIResponse st req now =
               Inr \<lparr>written = [], console = [ConsoleError ''Error in OpenAI API call:'' err],
                    state_after = st'\<rparr>"
    by (simp add: messages_handler_def)
next
  fix client st' completion ws err
  assume "getProviderInstance e reg st (provider_or_default (provider req)) now = Inr (client, st')"
    and "create client (body req) = Inr completion"
    and "streamOpenAIResponse completion (model (body req)) (body req) = (ws, Some err)"
  then show "messages_handler e reg create streamOpenAIResponse st req now =
               Inr \<lparr>written = ws, console = [ConsoleError ''Error in OpenAI API call:'' err],
                    state_after = st'\<rparr>"
    by (simp add: messages_handler_def)
next
  show "\<exists>res. messages_handler e reg create streamOpenAIResponse st req now = Inr res"
    by (simp add: messages_handler_def split: sum.splits prod.splits option.splits)
qed

text \<open>
  Witness for C1: a request for the unregistered provider \<open>nobody\<close>, and a request for the
  default provider whose backend call is refused.
\<close>

theorem handler_logs_error_without_reply_witness:
  "''nobody'' \<notin> fst ` set (startup_registry config_named)
   \<and> messages_handler no_proxy (startup_registry config_named) failing_backend echo_stream
        initial_state unknown_request 1000 =
       Inr \<lparr>written = [],
            console = [ConsoleError ''Error in OpenAI API call:''
                         (Error ''Provider nobody not found'')],
            state_after = initial_state\<rparr>
   \<and> getProviderInstance no_proxy (startup_registry config_named) initial_state ''default'' 1000 =
       Inr (client_a0, state_a0)
   \<and> failing_backend client_a0 (body default_request) = Inl (Error ''connect ECONNREFUSED'')
   \<and> messages_handler no_proxy (startup_registry config_named) failing_backend echo_stream
        initial_state default_request 1000 =
       Inr \<lparr>written = [],
            console = [ConsoleError ''Error in OpenAI API call:''
                         (Error ''connect ECONNREFUSED'')],
            state_after = state_a0\<rparr>"
proof -
  have u: "provider_or_default (provider unknown_request) = ''nobody''"
    and d: "provider_or_default (provider default_request) = ''default''"
    by (simp_all add: provider_or_default_def unknown_request_def default_request_def)
  have n: "''nobody'' \<notin> fst ` set (startup_registry config_named)"
    by (simp add: example_registry)
  have g: "getProviderInstance no_proxy (startup_registry config_named) initial_state ''default'' 1000 =
       Inr (client_a0, state_a0)"
    by (rule example_default_lookup)
  have f: "failing_backend client_a0 (body default_request) = Inl (Error ''connect ECONNREFUSED'')"
    by (simp add: failing_backend_def)
  note a = handler_logs_error_without_reply
    [of unknown_request "startup_registry config_named" no_proxy failing_backend echo_stream
      initial_state 1000, unfolded u]
  note b = handler_logs_error_without_reply
    [of default_request "startup_registry config_named" no_proxy failing_backend echo_stream
      initial_state 1000, unfolded d]
  show ?thesis
    using a b n g f by simp
qed

text \<open>
  Counterexample to C1 as stated (the gateway returns an error response to the caller): for
  a request that names the unregistered provider \<open>nobody\<close>, the handler returns with nothing
  written to the response; the error is on the console only.
\<close>

theorem unregistered_provider_no_reply_counterexample:
  "''nobody'' \<notin> fst ` set (startup_registry config_triple)
   \<and> messages_handler no_proxy (startup_registry config_triple) failing_backend echo_stream
        initial_state unknown_request 1000 =
       Inr \<lparr>written = [],
            console = [ConsoleError ''Error in OpenAI API call:''
                         (Error ''Provider nobody not found'')],
            state_after = initial_state\<rparr>"
  by (simp add: example_triple_registry messages_handler_def getProviderInstance_def Map_get_def
      provider_or_default_def unknown_request_def)

section \<open>Reading the configuration file\<close>

lemma check_field_cases:
  "check_field e answer s g =
     (if truthy (e g) then s\<lparr>current := (current s)(g := map_option JString (e g))\<rparr>
      else if field_truthy (current s) g then s
      else s\<lparr>current := (current s)(g \<mapsto> JString (answer (''Enter '' @ g @ '': ''))),
             needsUpdate := True, asked := asked s @ [''Enter '' @ g @ '': '']\<rparr>)"
  by (simp add: check_field_def)

lemma JString_truthy:
  "truthy v \<Longrightarrow> field_truthy (c(g := map_option JString v)) g"
  by (cases v) (simp_all add: truthy_def field_truthy_def)

lemma loop_inv_start: "loop_inv e answer c0 [] \<lparr>current = c0, needsUpdate = False, asked = []\<rparr>"
  by (simp add: loop_inv_def)

lemma loop_inv_step:
  assumes "loop_inv e answer c0 seen s"
  shows "loop_inv e answer c0 (seen @ [g]) (check_field e answer s g)"
proof -
  have a: "needsUpdate s \<longleftrightarrow> asked s \<noteq> []"
    and b: "\<forall>q \<in> set (asked s). \<exists>f \<in> set seen.
          q = ''Enter '' @ f @ '': '' \<and> \<not> truthy (e f) \<and> \<not> field_truthy c0 f"
    and c: "\<forall>f. current s f = c0 f
           \<or> truthy (e f) \<and> current s f = map_option JString (e f)
           \<or> \<not> field_truthy c0 f \<and> \<not> truthy (e f)"
    and d: "\<forall>f \<in> set seen. truthy (e f) \<longrightarrow> current s f = map_option JString (e f)"
    using assms by (simp_all add: loop_inv_def)
  show ?thesis
  proof (cases "truthy (e g)")
    case True
    then have s': "check_field e answer s g = s\<lparr>current := (current s)(g := map_option JString (e g))\<rparr>"
      by (simp add: check_field_cases)
    show ?thesis
      unfolding s' loop_inv_def using a b c d True by auto
  next
    case False
    show ?thesis
    proof (cases "field_truthy (current s) g")
      case True
      then have s': "check_field e answer s g = s"
        using False by (simp add: check_field_cases)
      show ?thesis
        unfolding s' loop_inv_def using a b c d False by auto
    next
      case nt: False
      have s': "check_field e answer s g =
          s\<lparr>current := (current s)(g \<mapsto> JString (answer (''Enter '' @ g @ '': ''))),
            needsUpdate := True, asked := asked s @ [''Enter '' @ g @ '': '']\<rparr>"
        using False nt by (simp add: check_field_cases)
      have c0g: "\<not> field_truthy c0 g"
      proof -
        from c have "current s g = c0 g
           \<or> truthy (e g) \<and> current s g = map_option JString (e g)
           \<or> \<not> field_truthy c0 g \<and> \<not> truthy (e g)" by blast
        with False nt show ?thesis by (auto simp: field_truthy_def)
      qed
      show ?thesis
        unfolding s' loop_inv_def using a b c d False c0g by auto
    qed
  qed
qed

lemma loop_inv_foldl:
  "loop_inv e answer c0 seen s \<Longrightarrow>
     loop_inv e answer c0 (seen @ todo) (foldl (check_field e answer) s todo)"
proof (induction todo arbitrary: seen s)
  case Nil
  then show ?case by simp
next
  case (Cons g todo)
  have "loop_inv e answer c0 ((seen @ [g]) @ todo)
          (foldl (check_field e answer) (check_field e answer s g) todo)"
    by (rule Cons.IH [OF loop_inv_step [OF Cons.prems]])
  then show ?case by simp
qed


lemma merged_truthy:
  "\<not> field_truthy (d ++ c) f \<Longrightarrow> \<not> field_truthy c f"
  by (auto simp: field_truthy_def map_add_def split: option.splits)

text \<open>
  Claim C10. For each required field, a non-empty environment variable is the value
  returned, whatever the file holds. The file system after the call is the one before, or
  the one before with the configuration file holding the returned configuration, and the
  latter only when a prompt was shown. Every prompt shown is for a required field that is
  set neither in the environment nor in the file; so when the file is rewritten, such a
  field exists and was prompted for, and when no field was prompted for, the file system is
  unchanged.
\<close>

theorem readConfigFile_env_priority_and_write:
  assumes run: "readConfigFile getConfigFile DEFAULT_CONFIG e answer fs customConfigPath =
                  (config, fs', prompts)"
  shows "(\<forall>f \<in> set requiredFields. \<forall>v. e f = Some v \<and> v \<noteq> [] \<longrightarrow> config f = Some (JString v))
     \<and> (fs' = fs \<or> fs' = fs(getConfigFile customConfigPath \<mapsto> JsonText config) \<and> prompts \<noteq> [])
     \<and> (prompts = [] \<longrightarrow> fs' = fs)
     \<and> (\<forall>q \<in> set prompts. \<exists>f \<in> set requiredFields.
           q = ''Enter '' @ f @ '': '' \<and> \<not> truthy (e f)
           \<and> \<not> field_truthy (existingConfig fs (getConfigFile customConfigPath)) f)
     \<and> (fs' \<noteq> fs \<longrightarrow>
           (\<exists>f \<in> set requiredFields. ''Enter '' @ f @ '': '' \<in> set prompts \<and> \<not> truthy (e f)
              \<and> \<not> field_truthy (existingConfig fs (getConfigFile customConfigPath)) f))"
proof -
  let ?path = "getConfigFile customConfigPath"
  let ?c0 = "DEFAULT_CONFIG ++ existingConfig fs ?path"
  let ?s = "foldl (check_field e answer) \<lparr>current = ?c0, needsUpdate = False, asked = []\<rparr>
              requiredFields"
  have cfg: "config = current ?s" and prm: "prompts = asked ?s"
    and fs': "fs' = (if needsUpdate ?s then fs(?path \<mapsto> JsonText (current ?s)) else fs)"
    using run by (auto simp: readConfigFile_def Let_def writeConfigFile_def)
  have "loop_inv e answer ?c0 ([] @ requiredFields) ?s"
    by (rule loop_inv_foldl [OF loop_inv_start])
  then have a: "needsUpdate ?s \<longleftrightarrow> asked ?s \<noteq> []"
    and b: "\<forall>q \<in> set (asked ?s). \<exists>f \<in> set requiredFields.
          q = ''Enter '' @ f @ '': '' \<and> \<not> truthy (e f) \<and> \<not> field_truthy ?c0 f"
    and d: "\<forall>f \<in> set requiredFields. truthy (e f) \<longrightarrow> current ?s f = map_option JString (e f)"
    by (simp_all add: loop_inv_def)
  have p1: "\<forall>f \<in> set requiredFields. \<forall>v. e f = Some v \<and> v \<noteq> [] \<longrightarrow> config f = Some (JString v)"
    using d by (auto simp: cfg truthy_def)
  have p2: "fs' = fs \<or> fs' = fs(?path \<mapsto> JsonText config) \<and> prompts \<noteq> []"
    using a by (simp add: fs' cfg prm)
  have p3: "prompts = [] \<longrightarrow> fs' = fs"
    using a by (simp add: fs' prm)
  have p4: "\<forall>q \<in> set prompts. \<exists>f \<in> set requiredFields.
           q = ''Enter '' @ f @ '': '' \<and> \<not> truthy (e f)
           \<and> \<not> field_truthy (existingConfig fs ?path) f"
    using b merged_truthy unfolding prm by blast
  have p5: "fs' \<noteq> fs \<longrightarrow>
           (\<exists>f \<in> set requiredFields. ''Enter '' @ f @ '': '' \<in> set prompts \<and> \<not> truthy (e f)
              \<and> \<not> field_truthy (existingConfig fs ?path) f)"
  proof
    assume "fs' \<noteq> fs"
    with p3 have "prompts \<noteq> []" by blast
    then obtain q where q: "q \<in> set prompts" by (cases prompts) auto
    with p4 obtain f where "f \<in> set requiredFields" "q = ''Enter '' @ f @ '': ''"
      "\<not> truthy (e f)" "\<not> field_truthy (existingConfig fs ?path) f"
      by blast
    with q show "\<exists>f \<in> set requiredFields. ''Enter '' @ f @ '': '' \<in> set prompts \<and> \<not> truthy (e f)
              \<and> \<not> field_truthy (existingConfig fs ?path) f"
      by blast
  qed
  from p1 p2 p3 p4 p5 show ?thesis by blast
qed

lemma example_read:
  "readConfigFile home_config_path Map.empty env_with_key typed_answer file_with_key None =
     ((existingConfig file_with_key ''/home/u/.claude-code-router/config.json'')
        (''OPENAI_API_KEY'' \<mapsto> JString ''key-from-env'',
         ''OPENAI_BASE_URL'' \<mapsto> JString ''https://env.example/v1''),
      file_with_key, [])"
  by (simp add: readConfigFile_def requiredFields_def check_field_def home_config_path_def
      env_with_key_def truthy_def field_truthy_def existingConfig_def file_with_key_def)

text \<open>
  Witness for C10: the key is in the environment and in the file, the base URL in the
  environment, the model in the file. The returned key is the environment's, nothing is
  prompted for and the file system is unchanged.
\<close>

theorem readConfigFile_env_priority_and_write_witness:
  "env_with_key ''OPENAI_API_KEY'' = Some ''key-from-env''
   \<and> existingConfig file_with_key (home_config_path None) ''OPENAI_API_KEY'' =
       Some (JString ''key-from-file'')
   \<and> fst (readConfigFile home_config_path Map.empty env_with_key typed_answer file_with_key None)
        ''OPENAI_API_KEY'' = Some (JString ''key-from-env'')
   \<and> fst (snd (readConfigFile home_config_path Map.empty env_with_key typed_answer file_with_key
        None)) = file_with_key
   \<and> snd (snd (readConfigFile home_config_path Map.empty env_with_key typed_answer file_with_key
        None)) = []"
proof -
  note r = example_read
  have k: "env_with_key ''OPENAI_API_KEY'' = Some ''key-from-env''"
    by (simp add: env_with_key_def)
  have f: "existingConfig file_with_key (home_config_path None) ''OPENAI_API_KEY'' =
       Some (JString ''key-from-file'')"
    by (simp add: existingConfig_def file_with_key_def home_config_path_def)
  have m: "''OPENAI_API_KEY'' \<in> set requiredFields"
    by (simp add: requiredFields_def)
  from readConfigFile_env_priority_and_write [OF r] m k
  have "((existingConfig file_with_key ''/home/u/.claude-code-router/config.json'')
        (''OPENAI_API_KEY'' \<mapsto> JString ''key-from-env'',
         ''OPENAI_BASE_URL'' \<mapsto> JString ''https://env.example/v1'')) ''OPENAI_API_KEY''
        = Some (JString ''key-from-env'')"
    by blast
  with k f show ?thesis by (simp add: r)
qed

lemma example_prompted:
  "snd (snd (readConfigFile home_config_path Map.empty no_env typed_answer Map.empty None)) =
     [''Enter OPENAI_API_KEY: '', ''Enter OPENAI_BASE_URL: '', ''Enter OPENAI_MODEL: '']
   \<and> fst (snd (readConfigFile home_config_path Map.empty no_env typed_answer Map.empty None))
        ''/home/u/.claude-code-router/config.json'' \<noteq> None"
  by (simp add: readConfigFile_def requiredFields_def check_field_def home_config_path_def
      no_env_def truthy_def field_truthy_def existingConfig_def writeConfigFile_def Let_def)

section \<open>The streaming response adapter\<close>

lemma adapt_chunks:
  "\<not> closed a \<Longrightarrow>
     foldl adapt_item a (map Chunk cs) = a\<lparr>emitted := emitted a @ map Delta cs\<rparr>"
proof (induction cs arbitrary: a)
  case Nil
  then show ?case by simp
next
  case (Cons c cs)
  have "\<not> closed (a\<lparr>emitted := emitted a @ [Delta c]\<rparr>)"
    using Cons.prems by simp
  from Cons.IH [OF this] Cons.prems show ?case by simp
qed

lemma received_chunks:
  "received (map Chunk cs) = \<lparr>emitted = Start # map Delta cs, closed = False, truncated = False\<rparr>"
  by (simp add: received_def adapt_chunks adapt_open_def)

lemma received_chunks_stop:
  "received (map Chunk cs @ [STOP]) =
     \<lparr>emitted = Start # map Delta cs @ [Terminal], closed = True, truncated = False\<rparr>"
proof -
  have "received (map Chunk cs @ [STOP]) = adapt_item (received (map Chunk cs)) STOP"
    by (simp add: received_def)
  then show ?thesis by (simp add: received_chunks)
qed

text \<open>
  Claim C5. For backend chunks \<open>c1, ..., cn\<close> followed by the stop signal, the adapter emits
  exactly start, the deltas of \<open>c1, ..., cn\<close> in that order, and the terminal event; the
  channel is then closed and not marked truncated. After the first \<open>k\<close> chunks have
  arrived, exactly the start event and the deltas of those \<open>k\<close> chunks have been emitted, so
  no delta precedes the arrival of its chunk. The terminal event occurs once, and last.
\<close>

theorem streaming_event_sequence:
  "emitted (adapt (map Chunk cs @ [STOP])) = Start # map Delta cs @ [Terminal]
   \<and> closed (adapt (map Chunk cs @ [STOP]))
   \<and> \<not> truncated (adapt (map Chunk cs @ [STOP]))
   \<and> (\<forall>k \<le> length cs.
         emitted (received (take k (map Chunk cs @ [STOP]))) = Start # map Delta (take k cs))
   \<and> count_list (emitted (adapt (map Chunk cs @ [STOP]))) Terminal = 1
   \<and> last (emitted (adapt (map Chunk cs @ [STOP]))) = Terminal"
proof -
  have a: "adapt (map Chunk cs @ [STOP]) =
     \<lparr>emitted = Start # map Delta cs @ [Terminal], closed = True, truncated = False\<rparr>"
    by (simp add: adapt_def adapt_end_def received_chunks_stop)
  have "count_list (map Delta cs) Terminal = 0"
    by (induction cs) simp_all
  then have c: "count_list (Start # map Delta cs @ [Terminal]) Terminal = 1"
    by simp
  have p: "emitted (received (take k (map Chunk cs @ [STOP]))) = Start # map Delta (take k cs)"
    if "k \<le> length cs" for k
  proof -
    have "take k (map Chunk cs @ [STOP]) = map Chunk (take k cs)"
      using that by (simp add: take_map)
    then show ?thesis by (simp add: received_chunks)
  qed
  from a c p show ?thesis by simp
qed

text \<open>Witness for C5: two chunks and the stop signal; after the first chunk, one delta.\<close>

theorem streaming_event_sequence_witness:
  "emitted (adapt [Chunk ''Hel'', Chunk ''lo'', STOP]) =
     [Start, Delta ''Hel'', Delta ''lo'', Terminal]
   \<and> (1::nat) \<le> length [''Hel'', ''lo'']
   \<and> emitted (received [Chunk ''Hel'']) = [Start, Delta ''Hel'']"
proof -
  have k: "(1::nat) \<le> length [''Hel'', ''lo'']" by simp
  from streaming_event_sequence [of "[''Hel'', ''lo'']"]
  have s: "emitted (adapt (map Chunk [''Hel'', ''lo''] @ [STOP])) =
             Start # map Delta [''Hel'', ''lo''] @ [Terminal]"
    and p: "\<forall>k \<le> length [''Hel'', ''lo''].
         emitted (received (take k (map Chunk [''Hel'', ''lo''] @ [STOP]))) =
           Start # map Delta (take k [''Hel'', ''lo''])"
    by blast+
  from p k have "emitted (received (take 1 (map Chunk [''Hel'', ''lo''] @ [STOP]))) =
           Start # map Delta (take 1 [''Hel'', ''lo''])"
    by blast
  with s k show ?thesis by simp
qed

lemma truncated_stream_example:
  "adapt [Chunk ''c1'', Chunk ''c2''] =
     \<lparr>emitted = [Start, Delta ''c1'', Delta ''c2'', Terminal], closed = True, truncated = True\<rparr>"
  by (simp add: adapt_def received_def adapt_end_def adapt_open_def)

end
